theory Spec2Isabelle
  imports Complex_Main "HOL-Library.Sublist" "HOL-Library.Multiset"
begin

section \<open>Python strings and the UTF-8 codec\<close>

text \<open>
  A Python \<open>str\<close> is a sequence of code points and \<open>bytes\<close> a sequence of octets; both
  are modelled as lists of naturals. \<open>str.encode('utf-8')\<close> raises on a surrogate code
  point; \<open>bytes.decode('utf-8')\<close> is the strict decoder (shortest form only, no
  surrogates, nothing above U+10FFFF), raising \<open>UnicodeDecodeError\<close> (here \<open>None\<close>)
  on anything else.
\<close>

type_synonym pystr = "nat list"
type_synonym pybytes = "nat list"

definition is_scalar :: "nat \<Rightarrow> bool" where
  "is_scalar c \<longleftrightarrow> c < 0x110000 \<and> \<not> (0xD800 \<le> c \<and> c \<le> 0xDFFF)"

definition utf8_enc1 :: "nat \<Rightarrow> pybytes" where
  "utf8_enc1 c =
     (if c < 0x80 then [c]
      else if c < 0x800 then [0xC0 + c div 64, 0x80 + c mod 64]
      else if c < 0x10000 then [0xE0 + c div 4096, 0x80 + (c div 64) mod 64, 0x80 + c mod 64]
      else [0xF0 + c div 262144, 0x80 + (c div 4096) mod 64, 0x80 + (c div 64) mod 64,
            0x80 + c mod 64])"

definition utf8_encode :: "pystr \<Rightarrow> pybytes" where
  "utf8_encode s = concat (map utf8_enc1 s)"

definition is_cont :: "nat \<Rightarrow> bool" where
  "is_cont b \<longleftrightarrow> 0x80 \<le> b \<and> b \<le> 0xBF"

definition second_ok3 :: "nat \<Rightarrow> nat \<Rightarrow> bool" where
  "second_ok3 b0 b1 \<longleftrightarrow>
     (if b0 = 0xE0 then 0xA0 \<le> b1 \<and> b1 \<le> 0xBF
      else if b0 = 0xED then 0x80 \<le> b1 \<and> b1 \<le> 0x9F
      else is_cont b1)"

definition second_ok4 :: "nat \<Rightarrow> nat \<Rightarrow> bool" where
  "second_ok4 b0 b1 \<longleftrightarrow>
     (if b0 = 0xF0 then 0x90 \<le> b1 \<and> b1 \<le> 0xBF
      else if b0 = 0xF4 then 0x80 \<le> b1 \<and> b1 \<le> 0x8F
      else is_cont b1)"

definition utf8_seq_len :: "nat \<Rightarrow> nat" where
  "utf8_seq_len b0 =
     (if b0 < 0x80 then 1
      else if 0xC2 \<le> b0 \<and> b0 \<le> 0xDF then 2
      else if 0xE0 \<le> b0 \<and> b0 \<le> 0xEF then 3
      else if 0xF0 \<le> b0 \<and> b0 \<le> 0xF4 then 4
      else 0)"

definition utf8_seq_value :: "pybytes \<Rightarrow> nat option" where
  "utf8_seq_value q =
     (case q of
        [b0] \<Rightarrow> if b0 < 0x80 then Some b0 else None
      | [b0, b1] \<Rightarrow>
          if is_cont b1 then Some ((b0 - 0xC0) * 64 + (b1 - 0x80)) else None
      | [b0, b1, b2] \<Rightarrow>
          if second_ok3 b0 b1 \<and> is_cont b2
          then Some ((b0 - 0xE0) * 4096 + (b1 - 0x80) * 64 + (b2 - 0x80)) else None
      | [b0, b1, b2, b3] \<Rightarrow>
          if second_ok4 b0 b1 \<and> is_cont b2 \<and> is_cont b3
          then Some ((b0 - 0xF0) * 262144 + (b1 - 0x80) * 4096 + (b2 - 0x80) * 64 + (b3 - 0x80))
          else None
      | _ \<Rightarrow> None)"

definition utf8_first :: "pybytes \<Rightarrow> (nat \<times> pybytes) option" where
  "utf8_first bs =
     (let n = utf8_seq_len (hd bs) in
      if bs = [] \<or> n = 0 \<or> length bs < n then None
      else map_option (\<lambda>c. (c, drop n bs)) (utf8_seq_value (take n bs)))"

text \<open>The recursion of the decoder consumes at least one byte per code point.\<close>

lemma utf8_first_shorter: "utf8_first bs = Some (c, r) \<Longrightarrow> length r < length bs"
  by (auto simp: utf8_first_def Let_def split: if_splits)

function utf8_decode :: "pybytes \<Rightarrow> pystr option" where
  "utf8_decode bs =
     (if bs = [] then Some []
      else case utf8_first bs of
             None \<Rightarrow> None
           | Some (c, r) \<Rightarrow> map_option ((#) c) (utf8_decode r))"
  by pat_completeness auto
termination
  by (relation "measure length") (auto dest: utf8_first_shorter)

declare utf8_decode.simps [simp del]

section \<open>\<open>NotificationService._truncate_to_bytes\<close>\<close>

text \<open>
  Exceptions are values. \<open>encoded[:max_bytes]\<close> is Python slicing: a negative bound counts
  from the end. The \<open>while truncated:\<close> loop drops one byte at a time until the strict
  decoder accepts, and yields the empty string when no byte is left.
\<close>

datatype codec_error = UnicodeEncodeError

definition py_encode_utf8 :: "pystr \<Rightarrow> codec_error + pybytes" where
  "py_encode_utf8 s =
     (if \<forall>c\<in>set s. is_scalar c then Inr (utf8_encode s) else Inl UnicodeEncodeError)"

definition py_slice_to :: "'a list \<Rightarrow> int \<Rightarrow> 'a list" where
  "py_slice_to xs m =
     (if 0 \<le> m then take (nat m) xs else take (nat (int (length xs) + m)) xs)"

function decode_walk_back :: "pybytes \<Rightarrow> pystr" where
  "decode_walk_back truncated =
     (if truncated = [] then []
      else case utf8_decode truncated of
             Some s \<Rightarrow> s
           | None \<Rightarrow> decode_walk_back (butlast truncated))"
  by pat_completeness auto
termination
  by (relation "measure length") auto

declare decode_walk_back.simps [simp del]

definition truncate_to_bytes :: "pystr \<Rightarrow> int \<Rightarrow> codec_error + pystr" where
  "truncate_to_bytes text max_bytes =
     (case py_encode_utf8 text of
        Inl e \<Rightarrow> Inl e
      | Inr encoded \<Rightarrow>
          if int (length encoded) \<le> max_bytes then Inr text
          else Inr (decode_walk_back (py_slice_to encoded max_bytes)))"

section \<open>Candle frames: \<open>BaseFetcher._clean_data\<close> and \<open>_calculate_indicators\<close>\<close>

text \<open>
  A row of the normalised frame. \<open>pd.to_numeric(errors='coerce')\<close> turns whatever is
  not a number into NaN, here \<open>None\<close>. Dates are ordinals of parsed timestamps (rows
  with a missing date are outside the model). A finite float64 value is the rational
  number it denotes.
\<close>

record raw_row =
  date :: int
  open_p :: "rat option"
  high :: "rat option"
  low :: "rat option"
  close :: "rat option"
  volume :: "rat option"
  amount :: "rat option"
  pct_chg :: "rat option"

text \<open>
  \<open>dropna(subset=['close', 'volume'])\<close>, then \<open>sort_values('date', ascending=True)\<close>
  and \<open>reset_index(drop=True)\<close>. No row is removed for any other reason.
\<close>

definition clean_data :: "raw_row list \<Rightarrow> raw_row list" where
  "clean_data df = sort_key date (filter (\<lambda>r. close r \<noteq> None \<and> volume r \<noteq> None) df)"

text \<open>
  In exact arithmetic, \<open>rolling(window=w, min_periods=1).mean()\<close> at row \<open>t\<close> is the mean
  of the values present among the last \<open>w\<close> rows up to \<open>t\<close>, NaN when none is present.
\<close>

definition rolling_window :: "nat \<Rightarrow> 'a list \<Rightarrow> nat \<Rightarrow> 'a list" where
  "rolling_window w xs t = drop (Suc t - w) (take (Suc t) xs)"

definition mean :: "rat list \<Rightarrow> rat" where
  "mean xs = sum_list xs / of_nat (length xs)"

definition rolling_mean :: "nat \<Rightarrow> rat option list \<Rightarrow> nat \<Rightarrow> rat option" where
  "rolling_mean w xs t =
     (let present = concat (map (\<lambda>v. case v of None \<Rightarrow> [] | Some x \<Rightarrow> [x]) (rolling_window w xs t))
      in if present = [] then None else Some (mean present))"

text \<open>In exact arithmetic, \<open>round(2)\<close>: to two decimals, ties to the even neighbour.\<close>

definition round_half_even :: "rat \<Rightarrow> int" where
  "round_half_even y =
     (let f = \<lfloor>y\<rfloor>; d = y - of_int f
      in if d < 1 / 2 then f else if 1 / 2 < d then f + 1 else if even f then f else f + 1)"

definition round2 :: "rat \<Rightarrow> rat" where
  "round2 x = of_int (round_half_even (x * 100)) / 100"

datatype xnum = Fin rat | PosInf | NegInf

text \<open>
  The closes and volumes are float64 columns, and the indicators are computed by pandas
  in float64. Every finite float is a rational number, so values are carried as
  rationals, and the three float operations, which are not part of this repository, are
  parameters: \<open>fl_rolling_mean w xs t\<close> is row \<open>t\<close> of
  \<open>xs.rolling(window=w, min_periods=1).mean()\<close>, \<open>fl_round2\<close> is \<open>round(2)\<close> on a finite
  value, and \<open>fl_divide\<close> is the quotient of two finite values with a non-zero divisor.
  \<open>exact_ops\<close> below are the same operations in exact arithmetic.
\<close>

record float_ops =
  fl_rolling_mean :: "nat \<Rightarrow> rat option list \<Rightarrow> nat \<Rightarrow> rat option"
  fl_round2 :: "rat \<Rightarrow> rat"
  fl_divide :: "rat \<Rightarrow> rat \<Rightarrow> rat"

definition exact_ops :: float_ops where
  "exact_ops = \<lparr> fl_rolling_mean = rolling_mean, fl_round2 = round2, fl_divide = (/) \<rparr>"

text \<open>
  \<open>volume / avg_volume_5.shift(1)\<close>, then \<open>fillna(1.0)\<close>, then \<open>round(2)\<close>: NaN (first
  row, a missing operand, or 0/0) becomes 1.0; a non-zero volume over a zero average is
  infinite.
\<close>

definition volume_ratio_at :: "float_ops \<Rightarrow> rat option list \<Rightarrow> nat \<Rightarrow> xnum" where
  "volume_ratio_at ops vols t =
     (case (vols ! t, if t = 0 then None else fl_rolling_mean ops 5 vols (t - 1)) of
        (Some v, Some a) \<Rightarrow>
          if a = 0 then (if v = 0 then Fin 1 else if 0 < v then PosInf else NegInf)
          else Fin (fl_round2 ops (fl_divide ops v a))
      | _ \<Rightarrow> Fin 1)"

record enriched_row =
  row :: raw_row
  ma5 :: "rat option"
  ma10 :: "rat option"
  ma20 :: "rat option"
  volume_ratio :: xnum

definition calculate_indicators :: "float_ops \<Rightarrow> raw_row list \<Rightarrow> enriched_row list" where
  "calculate_indicators ops df =
     map (\<lambda>t. \<lparr> row = df ! t,
                ma5 = map_option (fl_round2 ops) (fl_rolling_mean ops 5 (map close df) t),
                ma10 = map_option (fl_round2 ops) (fl_rolling_mean ops 10 (map close df) t),
                ma20 = map_option (fl_round2 ops) (fl_rolling_mean ops 20 (map close df) t),
                volume_ratio = volume_ratio_at ops (map volume df) t \<rparr>)
       [0..<length df]"

section \<open>\<open>BaseFetcher.get_daily_data\<close>\<close>

datatype py_exception = DataFetchError pystr | OtherException pystr

text \<open>\<open>str(e)\<close>\<close>

fun exc_str :: "py_exception \<Rightarrow> pystr" where
  "exc_str (DataFetchError m) = m"
| "exc_str (OtherException m) = m"

definition ascii :: "string \<Rightarrow> pystr" where
  "ascii s = map of_char s"

text \<open>
  A concrete fetcher supplies its name, its priority and the two abstract methods;
  \<open>'c\<close> is the shape of a row of its raw frame. A frame is its list of rows, empty when
  it has none. \<open>start_date\<close> and \<open>end_date\<close> are the resolved bounds: the defaulting from
  the clock happens before the \<open>try\<close> block.
\<close>

record 'c base_fetcher =
  bf_name :: pystr
  bf_priority :: int
  fetch_raw_data :: "pystr \<Rightarrow> pystr \<Rightarrow> pystr \<Rightarrow> py_exception + 'c list option"
  normalize_data :: "'c list \<Rightarrow> pystr \<Rightarrow> py_exception + raw_row list"

text \<open>The message \<open>f"[{self.name}] \<dots> {stock_code} \<dots>"\<close> of the empty-frame error.\<close>

definition no_data_message :: "pystr \<Rightarrow> pystr \<Rightarrow> pystr" where
  "no_data_message nm code =
     ascii ''['' @ nm @ ascii ''] '' @ [0x672A, 0x7372, 0x53D6, 0x5230] @ ascii '' '' @ code
       @ ascii '' '' @ [0x7684, 0x6578, 0x64DA]"

definition wrap_message :: "pystr \<Rightarrow> pystr \<Rightarrow> py_exception \<Rightarrow> pystr" where
  "wrap_message nm code e = ascii ''['' @ nm @ ascii ''] '' @ code @ ascii '': '' @ exc_str e"

definition daily_steps ::
  "float_ops \<Rightarrow> 'c base_fetcher \<Rightarrow> pystr \<Rightarrow> pystr \<Rightarrow> pystr
     \<Rightarrow> py_exception + enriched_row list" where
  "daily_steps ops f code start_date end_date =
     (case fetch_raw_data f code start_date end_date of
        Inl e \<Rightarrow> Inl e
      | Inr None \<Rightarrow> Inl (DataFetchError (no_data_message (bf_name f) code))
      | Inr (Some raw_df) \<Rightarrow>
          if raw_df = [] then Inl (DataFetchError (no_data_message (bf_name f) code))
          else (case normalize_data f raw_df code of
                  Inl e \<Rightarrow> Inl e
                | Inr df \<Rightarrow> Inr (calculate_indicators ops (clean_data df))))"

definition base_get_daily_data ::
  "float_ops \<Rightarrow> 'c base_fetcher \<Rightarrow> pystr \<Rightarrow> pystr \<Rightarrow> pystr
     \<Rightarrow> py_exception + enriched_row list" where
  "base_get_daily_data ops f code start_date end_date =
     (case daily_steps ops f code start_date end_date of
        Inl e \<Rightarrow> Inl (DataFetchError (wrap_message (bf_name f) code e))
      | Inr df \<Rightarrow> Inr df)"

text \<open>
  A 21-day series used below: twenty days closing at 1.00, then one day at 1.03.
\<close>

definition day_row :: "int \<Rightarrow> rat \<Rightarrow> raw_row" where
  "day_row d c = \<lparr> date = d, open_p = Some c, high = Some c, low = Some c, close = Some c,
                   volume = Some 1000, amount = None, pct_chg = None \<rparr>"

definition series21 :: "raw_row list" where
  "series21 = map (\<lambda>i. day_row (int i) 1) [0..<20] @ [day_row 20 (103 / 100)]"


section \<open>\<open>DataFetcherManager\<close>: fetchers and daily data\<close>

text \<open>
  What the manager sees of a fetcher: its name, its priority and its methods as
  functions. A method that a fetcher class does not define (\<open>hasattr\<close> is false) is
  \<open>None\<close>. A method's outcome is a raised exception (\<open>Inl\<close>) or its return value.
\<close>

record daily_request =
  stock_code :: pystr
  start_date :: "pystr option"
  end_date :: "pystr option"
  days :: int

record quote =
  q_code :: pystr
  q_name :: pystr
  q_source :: pystr
  q_price :: "rat option"

record chip =
  chip_code :: pystr
  chip_date :: pystr
  profit_ratio :: rat
  avg_cost :: rat

record fetcher =
  name :: pystr
  priority :: int
  get_daily :: "daily_request \<Rightarrow> py_exception + enriched_row list option"
  get_quote :: "(pystr \<Rightarrow> pystr option \<Rightarrow> py_exception + quote option) option"
  get_chip :: "(pystr \<Rightarrow> py_exception + chip option) option"

text \<open>
  \<open>__init__\<close>: a non-empty list of fetchers is sorted by priority (\<open>sorted\<close> is stable);
  with \<open>None\<close> or an empty list the default fetchers, here \<open>defaults\<close> in the order
  \<open>_init_default_fetchers\<close> builds them, are sorted the same way.
\<close>

definition manager_init :: "fetcher list option \<Rightarrow> fetcher list \<Rightarrow> fetcher list" where
  "manager_init fetchers defaults =
     (case fetchers of
        Some fs \<Rightarrow> if fs \<noteq> [] then sort_key priority fs else sort_key priority defaults
      | None \<Rightarrow> sort_key priority defaults)"

text \<open>\<open>sep.join(xs)\<close>\<close>

fun py_join :: "pystr \<Rightarrow> pystr list \<Rightarrow> pystr" where
  "py_join sep [] = []"
| "py_join sep [x] = x"
| "py_join sep (x # y # ys) = x @ sep @ py_join sep (y # ys)"

text \<open>\<open>f"[{fetcher.name}] \<dots>: {str(e)}"\<close> and the summary of all failures.\<close>

definition failure_line :: "pystr \<Rightarrow> py_exception \<Rightarrow> pystr" where
  "failure_line nm e = ascii ''['' @ nm @ ascii ''] '' @ [0x5931, 0x6557] @ ascii '': '' @ exc_str e"

definition error_summary :: "pystr \<Rightarrow> pystr list \<Rightarrow> pystr" where
  "error_summary code errors =
     [0x6240, 0x6709, 0x6578, 0x64DA, 0x6E90, 0x7372, 0x53D6] @ ascii '' '' @ code @ ascii '' ''
       @ [0x5931, 0x6557] @ ascii '':'' @ [10] @ py_join [10] errors"

text \<open>
  The loop of \<open>get_daily_data\<close> over \<open>self._fetchers\<close>, with the list \<open>errors\<close> collected so
  far. A fetcher that returns \<open>None\<close> or an empty frame adds nothing to \<open>errors\<close>.
\<close>

fun daily_loop ::
  "fetcher list \<Rightarrow> daily_request \<Rightarrow> pystr list \<Rightarrow> py_exception + (enriched_row list \<times> pystr)"
  where
  "daily_loop [] req errors = Inl (DataFetchError (error_summary (stock_code req) errors))"
| "daily_loop (f # fs) req errors =
     (case get_daily f req of
        Inl e \<Rightarrow> daily_loop fs req (errors @ [failure_line (name f) e])
      | Inr None \<Rightarrow> daily_loop fs req errors
      | Inr (Some df) \<Rightarrow> if df \<noteq> [] then Inr (df, name f) else daily_loop fs req errors)"

definition manager_get_daily_data ::
  "fetcher list \<Rightarrow> daily_request \<Rightarrow> py_exception + (enriched_row list \<times> pystr)" where
  "manager_get_daily_data fetchers req = daily_loop fetchers req []"

text \<open>A fetcher that yields no series for a request: it raises, or returns nothing.\<close>

definition yields_nothing :: "fetcher \<Rightarrow> daily_request \<Rightarrow> bool" where
  "yields_nothing f req =
     (case get_daily f req of Inl e \<Rightarrow> True | Inr None \<Rightarrow> True | Inr (Some df) \<Rightarrow> df = [])"

text \<open>The error lines of the fetchers that raise, in the order of the list.\<close>

definition failure_lines :: "fetcher list \<Rightarrow> daily_request \<Rightarrow> pystr list" where
  "failure_lines fs req =
     concat (map (\<lambda>f. case get_daily f req of Inl e \<Rightarrow> [failure_line (name f) e] | Inr r \<Rightarrow> []) fs)"

text \<open>Two fetchers and a request used below to exercise the failover.\<close>

definition good_fetcher :: fetcher where
  "good_fetcher =
     \<lparr> name = ascii ''YfinanceFetcher'', priority = 4,
       get_daily = (\<lambda>req. Inr (Some (calculate_indicators exact_ops series21))),
       get_quote = None, get_chip = None \<rparr>"

definition bad_fetcher :: fetcher where
  "bad_fetcher =
     \<lparr> name = ascii ''EfinanceFetcher'', priority = 0,
       get_daily = (\<lambda>req. Inl (DataFetchError (ascii ''boom''))),
       get_quote = None, get_chip = None \<rparr>"

definition aapl_request :: daily_request where
  "aapl_request = \<lparr> stock_code = ascii ''AAPL'', start_date = None, end_date = None, days = 30 \<rparr>"

definition silent_fetcher :: fetcher where
  "silent_fetcher =
     \<lparr> name = ascii ''BaostockFetcher'', priority = 3,
       get_daily = (\<lambda>req. Inr (Some [])),
       get_quote = None, get_chip = None \<rparr>"

section \<open>String methods and regular expressions\<close>

text \<open>
  \<open>str.strip()\<close> removes the code points for which \<open>str.isspace()\<close> holds from both
  ends. \<open>str.upper()\<close> and \<open>str.lower()\<close> are modelled on ASCII only, where they change
  exactly the letters; the case mappings of code points beyond ASCII are not modelled,
  and the statements that depend on them are about ASCII strings.
\<close>

definition py_isspace :: "nat \<Rightarrow> bool" where
  "py_isspace c \<longleftrightarrow>
     (0x09 \<le> c \<and> c \<le> 0x0D) \<or> (0x1C \<le> c \<and> c \<le> 0x20) \<or> c = 0x85 \<or> c = 0xA0
     \<or> c = 0x1680 \<or> (0x2000 \<le> c \<and> c \<le> 0x200A) \<or> c = 0x2028 \<or> c = 0x2029
     \<or> c = 0x202F \<or> c = 0x205F \<or> c = 0x3000"

definition py_strip :: "pystr \<Rightarrow> pystr" where
  "py_strip s = rev (dropWhile py_isspace (rev (dropWhile py_isspace s)))"

definition is_ascii :: "pystr \<Rightarrow> bool" where
  "is_ascii s \<longleftrightarrow> list_all (\<lambda>c. c < 128) s"

definition upper_char :: "nat \<Rightarrow> nat" where
  "upper_char c = (if 97 \<le> c \<and> c \<le> 122 then c - 32 else c)"

definition lower_char :: "nat \<Rightarrow> nat" where
  "lower_char c = (if 65 \<le> c \<and> c \<le> 90 then c + 32 else c)"

definition py_upper :: "pystr \<Rightarrow> pystr" where
  "py_upper s = map upper_char s"

definition py_lower :: "pystr \<Rightarrow> pystr" where
  "py_lower s = map lower_char s"

text \<open>
  \<open>s.split(sep)\<close> for a non-empty separator, scanning left to right; \<open>cur\<close> is the piece
  read so far. \<open>sep in s\<close> is \<open>py_contains\<close>.
\<close>

function py_split_from :: "pystr \<Rightarrow> pystr \<Rightarrow> pystr \<Rightarrow> pystr list" where
  "py_split_from sep cur s =
     (if s = [] then [cur]
      else if sep \<noteq> [] \<and> prefix sep s then cur # py_split_from sep [] (drop (length sep) s)
      else py_split_from sep (cur @ [hd s]) (tl s))"
  by pat_completeness auto
termination
  by (relation "measure (\<lambda>(sep, cur, s). length s)") auto

declare py_split_from.simps [simp del]

definition py_split :: "pystr \<Rightarrow> pystr \<Rightarrow> pystr list" where
  "py_split sep s = py_split_from sep [] s"

fun py_contains :: "pystr \<Rightarrow> pystr \<Rightarrow> bool" where
  "py_contains sep [] = (sep = [])"
| "py_contains sep (x # xs) = (prefix sep (x # xs) \<or> py_contains sep xs)"

text \<open>
  The fragment of regular expressions the tickers' patterns use: a character class
  \<open>[lo-hi]\<close>, concatenation, \<open>r?\<close> and \<open>r{m,n}\<close>. \<open>rx_run r s\<close> lists what can remain of
  \<open>s\<close> after \<open>r\<close> has matched a prefix of it, every way the matcher can go. \<open>re.match\<close>
  with a pattern \<open>^r$\<close> succeeds when \<open>r\<close> can match a prefix that leaves nothing, or
  leaves only a final newline (\<open>$\<close> matches before a newline that ends the string).
\<close>

datatype rx = Cls nat nat | Seq rx rx | Opt rx | Rep rx nat nat

fun rx_iter :: "(pystr \<Rightarrow> pystr list) \<Rightarrow> nat \<Rightarrow> pystr \<Rightarrow> pystr list" where
  "rx_iter step 0 s = [s]"
| "rx_iter step (Suc k) s = concat (map step (rx_iter step k s))"

fun rx_run :: "rx \<Rightarrow> pystr \<Rightarrow> pystr list" where
  "rx_run (Cls lo hi) s =
     (case s of [] \<Rightarrow> [] | c # t \<Rightarrow> if lo \<le> c \<and> c \<le> hi then [t] else [])"
| "rx_run (Seq a b) s = concat (map (rx_run b) (rx_run a s))"
| "rx_run (Opt r) s = rx_run r s @ [s]"
| "rx_run (Rep r m n) s = concat (map (\<lambda>k. rx_iter (rx_run r) k s) [m..<Suc n])"

definition re_match_anchored :: "rx \<Rightarrow> pystr \<Rightarrow> bool" where
  "re_match_anchored r s \<longleftrightarrow> list_ex (\<lambda>rest. rest = [] \<or> rest = [10]) (rx_run r s)"

text \<open>The pattern \<open>^[A-Z]{1,5}(\.[A-Z])?$\<close> of \<open>_is_us_code\<close>.\<close>

definition us_pattern :: rx where
  "us_pattern = Seq (Rep (Cls 65 90) 1 5) (Opt (Seq (Cls 46 46) (Cls 65 90)))"

definition is_us_code :: "pystr \<Rightarrow> bool" where
  "is_us_code code = re_match_anchored us_pattern (py_upper (py_strip code))"

text \<open>
  The pattern \<open>^[A-Z]{1,5}(\.[A-Z]{1,2})?$\<close> of the specification, matched against the
  raw ticker.
\<close>

definition spec_us_pattern :: rx where
  "spec_us_pattern = Seq (Rep (Cls 65 90) 1 5) (Opt (Seq (Cls 46 46) (Rep (Cls 65 90) 1 2)))"

definition spec_is_us :: "pystr \<Rightarrow> bool" where
  "spec_is_us raw = re_match_anchored spec_us_pattern raw"

text \<open>\<open>_is_etf_code\<close>: one of the seven prefixes and six characters long.\<close>

definition is_etf_code :: "pystr \<Rightarrow> bool" where
  "is_etf_code code \<longleftrightarrow>
     list_ex (\<lambda>p. prefix p code)
       [ascii ''51'', ascii ''52'', ascii ''56'', ascii ''58'', ascii ''15'', ascii ''16'',
        ascii ''18'']
     \<and> length code = 6"

section \<open>\<open>DataFetcherManager.get_realtime_quote\<close> and \<open>prefetch_realtime_quotes\<close>\<close>

record config =
  enable_realtime_quote :: bool
  enable_chip_distribution :: bool
  realtime_source_priority :: pystr

text \<open>
  What the manager does to the outside is recorded as a list of events: a call of a
  fetcher's quote or chip method, and the three operations of a circuit breaker.
\<close>

datatype event =
    QuoteCall pystr pystr "pystr option"
  | ChipCall pystr pystr
  | BreakerAvailable pystr bool
  | BreakerSuccess pystr
  | BreakerFailure pystr pystr

text \<open>
  Modelled from the spec: \<open>UnifiedRealtimeQuote.has_basic_data\<close> of the module
  \<open>realtime_types\<close>, which is not among the sources; "a quote is basically valid iff
  price is present".
\<close>

definition has_basic_data :: "quote \<Rightarrow> bool" where
  "has_basic_data q \<longleftrightarrow> q_price q \<noteq> None"

text \<open>
  The inner loop \<open>for fetcher in self._fetchers: if fetcher.name == nm: \<dots> break\<close>:
  the first fetcher of that name is asked, when it has the method.
\<close>

definition call_quote ::
  "fetcher list \<Rightarrow> pystr \<Rightarrow> pystr \<Rightarrow> pystr option \<Rightarrow> (py_exception + quote option) \<times> event list"
  where
  "call_quote fs nm code src =
     (case find (\<lambda>f. name f = nm) fs of
        None \<Rightarrow> (Inr None, [])
      | Some f \<Rightarrow>
          (case get_quote f of
             None \<Rightarrow> (Inr None, [])
           | Some m \<Rightarrow> (m code src, [QuoteCall nm code src])))"

definition us_quote :: "fetcher list \<Rightarrow> pystr \<Rightarrow> quote option \<times> event list" where
  "us_quote fs code =
     (case call_quote fs (ascii ''YfinanceFetcher'') code None of
        (Inr (Some q), tr) \<Rightarrow> (Some q, tr)
      | (Inr None, tr) \<Rightarrow> (None, tr)
      | (Inl e, tr) \<Rightarrow> (None, tr))"

definition source_quote ::
  "fetcher list \<Rightarrow> pystr \<Rightarrow> pystr \<Rightarrow> (py_exception + quote option) \<times> event list" where
  "source_quote fs code source =
     (if source = ascii ''efinance'' then call_quote fs (ascii ''EfinanceFetcher'') code None
      else if source = ascii ''akshare_em''
        then call_quote fs (ascii ''AkshareFetcher'') code (Some (ascii ''em''))
      else if source = ascii ''akshare_sina''
        then call_quote fs (ascii ''AkshareFetcher'') code (Some (ascii ''sina''))
      else if source = ascii ''tencent'' \<or> source = ascii ''akshare_qq''
        then call_quote fs (ascii ''AkshareFetcher'') code (Some (ascii ''tencent''))
      else if source = ascii ''tushare'' then call_quote fs (ascii ''TushareFetcher'') code None
      else (Inr None, []))"

fun quote_loop :: "fetcher list \<Rightarrow> pystr \<Rightarrow> pystr list \<Rightarrow> quote option \<times> event list" where
  "quote_loop fs code [] = (None, [])"
| "quote_loop fs code (source # rest) =
     (case source_quote fs code (py_lower (py_strip source)) of
        (Inr (Some q), tr) \<Rightarrow>
          if has_basic_data q then (Some q, tr)
          else (case quote_loop fs code rest of (r, tr') \<Rightarrow> (r, tr @ tr'))
      | (Inr None, tr) \<Rightarrow> (case quote_loop fs code rest of (r, tr') \<Rightarrow> (r, tr @ tr'))
      | (Inl e, tr) \<Rightarrow> (case quote_loop fs code rest of (r, tr') \<Rightarrow> (r, tr @ tr')))"

definition manager_get_realtime_quote ::
  "config \<Rightarrow> fetcher list \<Rightarrow> pystr \<Rightarrow> quote option \<times> event list" where
  "manager_get_realtime_quote cfg fs code =
     (if \<not> enable_realtime_quote cfg then (None, [])
      else if is_us_code code then us_quote fs code
      else quote_loop fs code (py_split (ascii '','') (realtime_source_priority cfg)))"

text \<open>
  \<open>prefetch_realtime_quotes\<close>. The result is the returned count, the codes for which
  \<open>self.get_realtime_quote\<close> was called, and the events of those calls.
\<close>

definition bulk_sources :: "pystr list" where
  "bulk_sources = [ascii ''efinance'', ascii ''akshare_em'', ascii ''tushare'']"

fun first_index :: "('a \<Rightarrow> bool) \<Rightarrow> 'a list \<Rightarrow> nat option" where
  "first_index P [] = None"
| "first_index P (x # xs) = (if P x then Some 0 else map_option Suc (first_index P xs))"

definition first_bulk_source_index :: "config \<Rightarrow> nat option" where
  "first_bulk_source_index cfg =
     first_index (\<lambda>source. source \<in> set bulk_sources)
       (map py_strip (py_split (ascii '','') (py_lower (realtime_source_priority cfg))))"

definition prefetch_realtime_quotes ::
  "config \<Rightarrow> fetcher list \<Rightarrow> pystr list \<Rightarrow> nat \<times> pystr list \<times> event list" where
  "prefetch_realtime_quotes cfg fs codes =
     (if \<not> enable_realtime_quote cfg then (0, [], [])
      else case first_bulk_source_index cfg of
        None \<Rightarrow> (0, [], [])
      | Some i \<Rightarrow>
          if 2 \<le> i then (0, [], [])
          else if length codes < 5 then (0, [], [])
          else (case manager_get_realtime_quote cfg fs (hd codes) of
                  (Some q, tr) \<Rightarrow> (length codes, [hd codes], tr)
                | (None, tr) \<Rightarrow> (0, [hd codes], tr)))"

text \<open>Configurations and a fetcher with a quote method, used below.\<close>

definition quoting_fetcher :: "pystr \<Rightarrow> fetcher" where
  "quoting_fetcher nm =
     \<lparr> name = nm, priority = 0,
       get_daily = (\<lambda>req. Inl (DataFetchError (ascii ''no daily data''))),
       get_quote = Some (\<lambda>code src. Inr (Some \<lparr> q_code = code, q_name = code, q_source = nm,
                                                    q_price = Some 100 \<rparr>)),
       get_chip = None \<rparr>"

definition config_with :: "bool \<Rightarrow> pystr \<Rightarrow> config" where
  "config_with quotes_on prio =
     \<lparr> enable_realtime_quote = quotes_on, enable_chip_distribution = True,
       realtime_source_priority = prio \<rparr>"

definition raising_fetcher :: "pystr \<Rightarrow> fetcher" where
  "raising_fetcher nm =
     \<lparr> name = nm, priority = 0,
       get_daily = (\<lambda>req. Inl (DataFetchError (ascii ''no daily data''))),
       get_quote = Some (\<lambda>code src. Inl (OtherException (ascii ''timeout''))),
       get_chip = Some (\<lambda>code. Inl (OtherException (ascii ''timeout''))) \<rparr>"

definition five_codes :: "pystr list" where
  "five_codes = [ascii ''600519'', ascii ''000001'', ascii ''601318'', ascii ''000002'',
                 ascii ''600036'']"

section \<open>Properties of the codec\<close>

lemma utf8_decode_Nil: "utf8_decode [] = Some []"
  by (subst utf8_decode.simps) simp

lemma utf8_decode_step:
  "bs \<noteq> [] \<Longrightarrow> utf8_decode bs =
     (case utf8_first bs of None \<Rightarrow> None
      | Some (c, r) \<Rightarrow> map_option ((#) c) (utf8_decode r))"
  by (subst utf8_decode.simps) simp

lemma utf8_enc1_length:
  "length (utf8_enc1 c) = (if c < 0x80 then 1 else if c < 0x800 then 2 else if c < 0x10000 then 3 else 4)"
  by (simp add: utf8_enc1_def)

lemma utf8_enc1_nonempty: "utf8_enc1 c \<noteq> []"
  by (simp add: utf8_enc1_def)

lemma utf8_first_1:
  "b0 < 0x80 \<Longrightarrow> utf8_first (b0 # rest) = Some (b0, rest)"
  by (simp add: utf8_first_def utf8_seq_len_def utf8_seq_value_def)

lemma utf8_first_2:
  "0xC2 \<le> b0 \<Longrightarrow> b0 \<le> 0xDF \<Longrightarrow> is_cont b1 \<Longrightarrow>
   utf8_first (b0 # b1 # rest) = Some ((b0 - 0xC0) * 64 + (b1 - 0x80), rest)"
  by (simp add: utf8_first_def utf8_seq_len_def utf8_seq_value_def)

lemma utf8_first_3:
  "0xE0 \<le> b0 \<Longrightarrow> b0 \<le> 0xEF \<Longrightarrow> second_ok3 b0 b1 \<Longrightarrow> is_cont b2 \<Longrightarrow>
   utf8_first (b0 # b1 # b2 # rest) =
     Some ((b0 - 0xE0) * 4096 + (b1 - 0x80) * 64 + (b2 - 0x80), rest)"
  by (simp add: utf8_first_def utf8_seq_len_def utf8_seq_value_def)

lemma utf8_first_4:
  "0xF0 \<le> b0 \<Longrightarrow> b0 \<le> 0xF4 \<Longrightarrow> second_ok4 b0 b1 \<Longrightarrow> is_cont b2 \<Longrightarrow> is_cont b3 \<Longrightarrow>
   utf8_first (b0 # b1 # b2 # b3 # rest) =
     Some ((b0 - 0xF0) * 262144 + (b1 - 0x80) * 4096 + (b2 - 0x80) * 64 + (b3 - 0x80), rest)"
  by (simp add: utf8_first_def utf8_seq_len_def utf8_seq_value_def)

lemma utf8_first_enc1_1:
  "c < 0x80 \<Longrightarrow> utf8_first (utf8_enc1 c @ rest) = Some (c, rest)"
  by (simp add: utf8_first_1 utf8_enc1_def)

lemma utf8_first_enc1_2:
  assumes "\<not> c < 0x80" "c < 0x800"
  shows "utf8_first (utf8_enc1 c @ rest) = Some (c, rest)"
proof -
  define a where "a = c div 64"
  define d where "d = c mod 64"
  have c: "c = a * 64 + d" unfolding a_def d_def by simp
  have "c < 32 * 64" using assms by simp
  then have "a < 32" unfolding a_def by (simp only: less_mult_imp_div_less)
  moreover have "2 \<le> a" using assms(1) unfolding a_def by simp
  ultimately have r: "2 \<le> a" "a < 32" "d < 64" unfolding d_def by simp_all
  have enc: "utf8_enc1 c @ rest = (0xC0 + a) # (0x80 + d) # rest"
    using assms by (simp add: utf8_enc1_def a_def d_def)
  have "utf8_first ((0xC0 + a) # (0x80 + d) # rest)
          = Some ((0xC0 + a - 0xC0) * 64 + (0x80 + d - 0x80), rest)"
    using r by (intro utf8_first_2) (simp_all add: is_cont_def)
  then have "utf8_first (utf8_enc1 c @ rest) = Some (a * 64 + d, rest)"
    using enc by simp
  then show ?thesis using c by simp
qed

lemma utf8_first_enc1_3:
  assumes "\<not> c < 0x800" "c < 0x10000" "\<not> (0xD800 \<le> c \<and> c \<le> 0xDFFF)"
  shows "utf8_first (utf8_enc1 c @ rest) = Some (c, rest)"
proof -
  define a where "a = c div 4096"
  define b where "b = (c div 64) mod 64"
  define d where "d = c mod 64"
  have "c div 64 = (c div 64 div 64) * 64 + (c div 64) mod 64" by simp
  moreover have "c div 64 div 64 = c div 4096" by (simp add: div_mult2_eq[symmetric])
  moreover have "c = (c div 64) * 64 + c mod 64" by simp
  ultimately have c: "c = a * 4096 + b * 64 + d" unfolding a_def b_def d_def by linarith
  have "c < 16 * 4096" using assms by simp
  then have "a < 16" unfolding a_def by (simp only: less_mult_imp_div_less)
  then have r: "a < 16" "b < 64" "d < 64" unfolding b_def d_def by simp_all
  have e0: "a = 0 \<Longrightarrow> 32 \<le> b" using assms(1) c r by simp
  have ed: "a = 13 \<Longrightarrow> b < 32" using assms(3) c r by simp
  have enc: "utf8_enc1 c @ rest = (0xE0 + a) # (0x80 + b) # (0x80 + d) # rest"
    using assms by (simp add: utf8_enc1_def a_def b_def d_def)
  have s: "second_ok3 (0xE0 + a) (0x80 + b)"
    using r e0 ed by (auto simp: second_ok3_def is_cont_def)
  have "utf8_first ((0xE0 + a) # (0x80 + b) # (0x80 + d) # rest)
          = Some ((0xE0 + a - 0xE0) * 4096 + (0x80 + b - 0x80) * 64 + (0x80 + d - 0x80), rest)"
    using r s by (intro utf8_first_3) (simp_all add: is_cont_def)
  then have "utf8_first (utf8_enc1 c @ rest) = Some (a * 4096 + b * 64 + d, rest)"
    using enc by simp
  then show ?thesis using c by simp
qed

lemma utf8_first_enc1_4:
  assumes "\<not> c < 0x10000" "c < 0x110000"
  shows "utf8_first (utf8_enc1 c @ rest) = Some (c, rest)"
proof -
  define a where "a = c div 262144"
  define b where "b = (c div 4096) mod 64"
  define d where "d = (c div 64) mod 64"
  define e where "e = c mod 64"
  have "c div 64 = (c div 64 div 64) * 64 + (c div 64) mod 64" by simp
  moreover have "c div 64 div 64 = c div 4096" by (simp add: div_mult2_eq[symmetric])
  moreover have "c div 4096 = (c div 4096 div 64) * 64 + (c div 4096) mod 64" by simp
  moreover have "c div 4096 div 64 = c div 262144" by (simp add: div_mult2_eq[symmetric])
  moreover have "c = (c div 64) * 64 + c mod 64" by simp
  ultimately have c: "c = a * 262144 + b * 4096 + d * 64 + e"
    unfolding a_def b_def d_def e_def by linarith
  have "c < 5 * 262144" using assms by simp
  then have "a < 5" unfolding a_def by (simp only: less_mult_imp_div_less)
  then have r: "a < 5" "b < 64" "d < 64" "e < 64" unfolding b_def d_def e_def by simp_all
  have e0: "a = 0 \<Longrightarrow> 16 \<le> b" using assms(1) c r by simp
  have e4: "a = 4 \<Longrightarrow> b < 16" using assms(2) c r by simp
  have enc: "utf8_enc1 c @ rest = (0xF0 + a) # (0x80 + b) # (0x80 + d) # (0x80 + e) # rest"
    using assms by (simp add: utf8_enc1_def a_def b_def d_def e_def)
  have s: "second_ok4 (0xF0 + a) (0x80 + b)"
    using r e0 e4 by (auto simp: second_ok4_def is_cont_def)
  have "utf8_first ((0xF0 + a) # (0x80 + b) # (0x80 + d) # (0x80 + e) # rest)
          = Some ((0xF0 + a - 0xF0) * 262144 + (0x80 + b - 0x80) * 4096
                  + (0x80 + d - 0x80) * 64 + (0x80 + e - 0x80), rest)"
    using r s by (intro utf8_first_4) (simp_all add: is_cont_def)
  then have "utf8_first (utf8_enc1 c @ rest) = Some (a * 262144 + b * 4096 + d * 64 + e, rest)"
    using enc by simp
  then show ?thesis using c by simp
qed

lemma utf8_first_enc1:
  assumes "is_scalar c"
  shows "utf8_first (utf8_enc1 c @ rest) = Some (c, rest)"
proof (cases "c < 0x80")
  case True
  then show ?thesis by (rule utf8_first_enc1_1)
next
  case n1: False
  show ?thesis
  proof (cases "c < 0x800")
    case True
    with n1 show ?thesis by (rule utf8_first_enc1_2)
  next
    case n2: False
    show ?thesis
    proof (cases "c < 0x10000")
      case True
      with n2 assms show ?thesis by (intro utf8_first_enc1_3) (simp_all add: is_scalar_def)
    next
      case False
      with assms show ?thesis by (intro utf8_first_enc1_4) (simp_all add: is_scalar_def)
    qed
  qed
qed

lemma utf8_decode_enc1:
  "is_scalar c \<Longrightarrow>
   utf8_decode (utf8_enc1 c @ rest) = map_option ((#) c) (utf8_decode rest)"
  by (simp add: utf8_decode_step utf8_enc1_nonempty utf8_first_enc1)

lemma utf8_decode_encode:
  "\<forall>c\<in>set s. is_scalar c \<Longrightarrow> utf8_decode (utf8_encode s) = Some s"
  by (induction s) (simp_all add: utf8_encode_def utf8_decode_Nil utf8_decode_enc1)

lemma utf8_first_short:
  "bs \<noteq> [] \<Longrightarrow> length bs < utf8_seq_len (hd bs) \<Longrightarrow> utf8_first bs = None"
  by (simp add: utf8_first_def)

lemma utf8_enc1_seq_len:
  assumes "is_scalar c"
  shows "utf8_seq_len (hd (utf8_enc1 c)) = length (utf8_enc1 c)"
proof -
  have "utf8_first (utf8_enc1 c @ []) = Some (c, [])"
    using assms by (rule utf8_first_enc1)
  then show ?thesis
    by (auto simp: utf8_first_def Let_def utf8_enc1_nonempty split: if_splits)
qed

lemma utf8_encode_Cons: "utf8_encode (c # s) = utf8_enc1 c @ utf8_encode s"
  by (simp add: utf8_encode_def)

lemma utf8_encode_Nil: "utf8_encode [] = []"
  by (simp add: utf8_encode_def)

lemma utf8_decode_cut_inside:
  assumes "is_scalar c" "0 < k" "k < length (utf8_enc1 c)"
  shows "utf8_decode (take k (utf8_enc1 c @ rest)) = None"
proof -
  have t: "take k (utf8_enc1 c @ rest) = take k (utf8_enc1 c)" using assms(3) by simp
  have ne: "take k (utf8_enc1 c) \<noteq> []" using assms(2) utf8_enc1_nonempty by simp
  have h: "hd (take k (utf8_enc1 c)) = hd (utf8_enc1 c)" using assms(2) by simp
  have "length (take k (utf8_enc1 c)) < utf8_seq_len (hd (take k (utf8_enc1 c)))"
    using assms by (simp add: h utf8_enc1_seq_len)
  with ne have "utf8_first (take k (utf8_enc1 c)) = None" by (rule utf8_first_short)
  then have "utf8_decode (take k (utf8_enc1 c)) = None"
    using ne by (simp add: utf8_decode_step)
  then show ?thesis unfolding t .
qed

lemma utf8_decode_take_prefix:
  "\<forall>c\<in>set str. is_scalar c \<Longrightarrow> utf8_decode (take k (utf8_encode str)) = Some r \<Longrightarrow>
   prefix r str \<and> utf8_encode r = take k (utf8_encode str)"
proof (induction str arbitrary: k r)
  case Nil
  then show ?case by (simp add: utf8_encode_Nil utf8_decode_Nil)
next
  case (Cons c t)
  let ?n = "length (utf8_enc1 c)"
  have sc: "is_scalar c" and st: "\<forall>x\<in>set t. is_scalar x" using Cons.prems(1) by simp_all
  consider (zero) "k = 0" | (inside) "0 < k" "k < ?n" | (beyond) "?n \<le> k" by linarith
  then show ?case
  proof cases
    case zero
    with Cons.prems(2) show ?thesis by (simp add: utf8_decode_Nil utf8_encode_Nil)
  next
    case inside
    then have "utf8_decode (take k (utf8_encode (c # t))) = None"
      unfolding utf8_encode_Cons using sc by (intro utf8_decode_cut_inside)
    with Cons.prems(2) show ?thesis by simp
  next
    case beyond
    then have t: "take k (utf8_encode (c # t)) = utf8_enc1 c @ take (k - ?n) (utf8_encode t)"
      by (simp add: utf8_encode_Cons)
    then have "map_option ((#) c) (utf8_decode (take (k - ?n) (utf8_encode t))) = Some r"
      using Cons.prems(2) sc by (simp add: utf8_decode_enc1)
    then obtain r' where r': "utf8_decode (take (k - ?n) (utf8_encode t)) = Some r'" "r = c # r'"
      by auto
    from Cons.IH[OF st r'(1)] have "prefix r' t"
      and "utf8_encode r' = take (k - ?n) (utf8_encode t)" by simp_all
    then have "prefix (c # r') (c # t)"
      and "utf8_encode (c # r') = take k (utf8_encode (c # t))"
      unfolding t by (simp_all add: utf8_encode_Cons)
    then show ?thesis unfolding r'(2) by simp
  qed
qed

lemma utf8_encode_append: "utf8_encode (a @ b) = utf8_encode a @ utf8_encode b"
  by (simp add: utf8_encode_def)

lemma utf8_encode_prefix: "prefix r s \<Longrightarrow> prefix (utf8_encode r) (utf8_encode s)"
  by (auto simp: prefix_def utf8_encode_append)

lemma decode_walk_back_prefix:
  "\<forall>c\<in>set str. is_scalar c \<Longrightarrow> prefix t (utf8_encode str) \<Longrightarrow>
   prefix (decode_walk_back t) str \<and> length (utf8_encode (decode_walk_back t)) \<le> length t"
proof (induction t rule: decode_walk_back.induct)
  case (1 t)
  show ?case
  proof (cases "t = []")
    case True
    then show ?thesis by (simp add: decode_walk_back.simps utf8_encode_Nil)
  next
    case ne: False
    have tk: "t = take (length t) (utf8_encode str)"
      using "1.prems"(2) by (metis append_eq_conv_conj prefixE)
    show ?thesis
    proof (cases "utf8_decode t")
      case None
      have "prefix (butlast t) (utf8_encode str)"
        using "1.prems"(2) by (meson prefix_order.trans prefixeq_butlast)
      from "1.IH"[OF ne None "1.prems"(1) this] have
        "prefix (decode_walk_back (butlast t)) str \<and>
         length (utf8_encode (decode_walk_back (butlast t))) \<le> length (butlast t)" .
      moreover have "decode_walk_back t = decode_walk_back (butlast t)"
        using ne None by (subst decode_walk_back.simps) simp
      moreover have "length (butlast t) \<le> length t" by simp
      ultimately show ?thesis by (metis order_trans)
    next
      case (Some s)
      then have "utf8_decode (take (length t) (utf8_encode str)) = Some s" using tk by simp
      from utf8_decode_take_prefix[OF "1.prems"(1) this]
      have "prefix s str" "utf8_encode s = t" using tk by simp_all
      moreover have "decode_walk_back t = s"
        using ne Some by (subst decode_walk_back.simps) simp
      ultimately show ?thesis by simp
    qed
  qed
qed

section \<open>Properties of cleaning and of the indicators\<close>

lemma calculate_indicators_length: "length (calculate_indicators ops df) = length df"
  by (simp add: calculate_indicators_def)

lemma calculate_indicators_row: "map row (calculate_indicators ops df) = df"
  by (simp add: calculate_indicators_def comp_def map_nth)


lemma clean_data_sorted: "sorted (map date (clean_data df))"
  by (simp add: clean_data_def)

lemma clean_data_mset:
  "mset (clean_data df) = mset (filter (\<lambda>r. close r \<noteq> None \<and> volume r \<noteq> None) df)"
  by (simp add: clean_data_def)









lemma base_get_daily_data_Inr:
  assumes "base_get_daily_data ops f code s e = Inr df"
  shows "\<exists>raw norm. fetch_raw_data f code s e = Inr (Some raw) \<and> raw \<noteq> []
           \<and> normalize_data f raw code = Inr norm
           \<and> df = calculate_indicators ops (clean_data norm)"
  using assms
  by (auto simp: base_get_daily_data_def daily_steps_def
           split: sum.splits option.splits if_splits)

section \<open>Claim C3: the dates of a returned series\<close>

text \<open>
  Claim C3, as stated, at a concrete input: a fetcher whose normalised frame has two rows
  for the same day returns both rows, so the date column is not strictly increasing.
\<close>

theorem daily_dates_strict_counterexample:
  "\<exists>df. base_get_daily_data exact_ops
          \<lparr> bf_name = ascii ''F'', bf_priority = 0,
            fetch_raw_data = (\<lambda>code s e. Inr (Some [()])),
            normalize_data = (\<lambda>raw code. Inr
              [\<lparr> date = 5, open_p = None, high = None, low = None, close = Some 10,
                 volume = Some 100, amount = None, pct_chg = None \<rparr>,
               \<lparr> date = 5, open_p = None, high = None, low = None, close = Some 11,
                 volume = Some 200, amount = None, pct_chg = None \<rparr>]) \<rparr>
          (ascii ''600519'') (ascii ''2024-01-01'') (ascii ''2024-02-01'') = Inr df
        \<and> map (\<lambda>r. date (row r)) df = [5, 5]
        \<and> \<not> sorted_wrt (<) (map (\<lambda>r. date (row r)) df)"
  by (simp add: base_get_daily_data_def daily_steps_def clean_data_def
      calculate_indicators_def upt_rec)

text \<open>
  Claim C3, amended. Every series returned by \<open>BaseFetcher.get_daily_data\<close> is sorted
  ascending by date, not necessarily strictly: it holds exactly the rows of the normalised
  frame that have a close and a volume, each as often as it occurs there, so rows that
  share a date are all kept.
\<close>

theorem daily_dates_sorted:
  assumes "base_get_daily_data ops f code s e = Inr df"
  shows "sorted (map (\<lambda>r. date (row r)) df)
         \<and> (\<exists>raw norm. fetch_raw_data f code s e = Inr (Some raw)
               \<and> normalize_data f raw code = Inr norm
               \<and> mset (map row df)
                   = mset (filter (\<lambda>r. close r \<noteq> None \<and> volume r \<noteq> None) norm))"
proof -
  obtain raw norm where a: "fetch_raw_data f code s e = Inr (Some raw)"
      "normalize_data f raw code = Inr norm" "df = calculate_indicators ops (clean_data norm)"
    using base_get_daily_data_Inr[OF assms] by blast
  have r: "map row df = clean_data norm" by (simp add: a(3) calculate_indicators_row)
  have "map (\<lambda>r. date (row r)) df = map date (map row df)" by simp
  then have "sorted (map (\<lambda>r. date (row r)) df)" by (simp only: r clean_data_sorted)
  then show ?thesis using a r by (auto simp: clean_data_mset)
qed

theorem daily_dates_sorted_witness:
  "base_get_daily_data exact_ops
      \<lparr> bf_name = ascii ''F'', bf_priority = 0,
        fetch_raw_data = (\<lambda>code s e. Inr (Some [()])),
        normalize_data = (\<lambda>raw code. Inr
          [\<lparr> date = 7, open_p = None, high = None, low = None, close = Some 10,
             volume = Some 100, amount = None, pct_chg = None \<rparr>,
           \<lparr> date = 5, open_p = None, high = None, low = None, close = Some 11,
             volume = Some 200, amount = None, pct_chg = None \<rparr>]) \<rparr>
      (ascii ''600519'') (ascii ''2024-01-01'') (ascii ''2024-02-01'')
    = Inr (calculate_indicators exact_ops
        [\<lparr> date = 5, open_p = None, high = None, low = None, close = Some 11,
           volume = Some 200, amount = None, pct_chg = None \<rparr>,
         \<lparr> date = 7, open_p = None, high = None, low = None, close = Some 10,
           volume = Some 100, amount = None, pct_chg = None \<rparr>])
   \<and> sorted (map (\<lambda>r. date (row r)) (calculate_indicators exact_ops
        [\<lparr> date = 5, open_p = None, high = None, low = None, close = Some 11,
           volume = Some 200, amount = None, pct_chg = None \<rparr>,
         \<lparr> date = 7, open_p = None, high = None, low = None, close = Some 10,
           volume = Some 100, amount = None, pct_chg = None \<rparr>]))"
proof -
  have v: "base_get_daily_data exact_ops
      \<lparr> bf_name = ascii ''F'', bf_priority = 0,
        fetch_raw_data = (\<lambda>code s e. Inr (Some [()])),
        normalize_data = (\<lambda>raw code. Inr
          [\<lparr> date = 7, open_p = None, high = None, low = None, close = Some 10,
             volume = Some 100, amount = None, pct_chg = None \<rparr>,
           \<lparr> date = 5, open_p = None, high = None, low = None, close = Some 11,
             volume = Some 200, amount = None, pct_chg = None \<rparr>]) \<rparr>
      (ascii ''600519'') (ascii ''2024-01-01'') (ascii ''2024-02-01'')
    = Inr (calculate_indicators exact_ops
        [\<lparr> date = 5, open_p = None, high = None, low = None, close = Some 11,
           volume = Some 200, amount = None, pct_chg = None \<rparr>,
         \<lparr> date = 7, open_p = None, high = None, low = None, close = Some 10,
           volume = Some 100, amount = None, pct_chg = None \<rparr>])"
    by (simp add: base_get_daily_data_def daily_steps_def clean_data_def)
  show ?thesis using v daily_dates_sorted [OF v] by simp
qed

section \<open>Claim C4: the 20-day moving average\<close>




lemma series21_length: "length series21 = 21"
  by (simp add: series21_def)









section \<open>Claim C1: failover of the daily data\<close>

lemma daily_loop_skip:
  "\<forall>g\<in>set pre. yields_nothing g req \<Longrightarrow>
   daily_loop (pre @ rest) req errors = daily_loop rest req (errors @ failure_lines pre req)"
proof (induction pre arbitrary: errors)
  case Nil
  then show ?case by (simp add: failure_lines_def)
next
  case (Cons g pre)
  then have "yields_nothing g req" and "\<forall>h\<in>set pre. yields_nothing h req" by simp_all
  with Cons.IH show ?case
    by (auto simp: yields_nothing_def failure_lines_def split: sum.splits option.splits)
qed

lemma manager_init_sorted: "sorted (map priority (manager_init fetchers defaults))"
  by (simp add: manager_init_def split: option.splits)

lemma manager_init_mset:
  "mset (manager_init fetchers defaults) =
     mset (case fetchers of Some fs \<Rightarrow> if fs \<noteq> [] then fs else defaults | None \<Rightarrow> defaults)"
  by (simp add: manager_init_def split: option.splits)

lemma py_join_sublist: "x \<in> set xs \<Longrightarrow> sublist x (py_join sep xs)"
proof (induction sep xs rule: py_join.induct)
  case (1 sep)
  then show ?case by simp
next
  case (2 sep y)
  then show ?case by simp
next
  case (3 sep y z zs)
  show ?case
  proof (cases "x = y")
    case True
    have "py_join sep (y # z # zs) = [] @ y @ (sep @ py_join sep (z # zs))" by simp
    then show ?thesis unfolding True sublist_def by blast
  next
    case False
    then have "sublist x (py_join sep (z # zs))" using 3 by simp
    then obtain ps ss where "py_join sep (z # zs) = ps @ x @ ss" unfolding sublist_def by blast
    then have "py_join sep (y # z # zs) = (y @ sep @ ps) @ x @ ss" by simp
    then show ?thesis unfolding sublist_def by blast
  qed
qed

lemma failure_lines_member:
  "g \<in> set fs \<Longrightarrow> get_daily g req = Inl e \<Longrightarrow>
   failure_line (name g) e \<in> set (failure_lines fs req)"
  by (induction fs) (auto simp: failure_lines_def)

lemma failure_line_literal:
  "failure_line nm e = [91] @ nm @ [93, 32, 0x5931, 0x6557, 58, 32] @ exc_str e"
  by (simp add: failure_line_def ascii_def)

lemma error_summary_literal:
  "error_summary code errors
     = [0x6240, 0x6709, 0x6578, 0x64DA, 0x6E90, 0x7372, 0x53D6, 32] @ code
       @ [32, 0x5931, 0x6557, 58, 10] @ py_join [10] errors"
  by (simp add: error_summary_def ascii_def)

lemma failure_lines_literal:
  "failure_lines fs req
     = concat (map (\<lambda>g. case get_daily g req of
                           Inl e \<Rightarrow> [[91] @ name g @ [93, 32, 0x5931, 0x6557, 58, 32] @ exc_str e]
                         | Inr r \<Rightarrow> []) fs)"
  by (simp add: failure_lines_def failure_line_literal cong: sum.case_cong)

lemma sublist_in_summary:
  assumes "sublist x (py_join [10] errors)"
  shows "sublist x (error_summary code errors)"
proof -
  obtain ps ss where "py_join [10] errors = ps @ x @ ss" using assms unfolding sublist_def by blast
  then have "error_summary code errors
              = ([0x6240, 0x6709, 0x6578, 0x64DA, 0x6E90, 0x7372, 0x53D6, 32] @ code
                  @ [32, 0x5931, 0x6557, 58, 10] @ ps) @ x @ ss"
    by (simp add: error_summary_literal)
  then show ?thesis unfolding sublist_def by blast
qed

text \<open>
  Claim C1, as stated, at a concrete input: the only fetcher yields an empty series, so
  it has failed, and the message of the error raised is the summary line alone; it does
  not name that source.
\<close>

theorem daily_failover_counterexample:
  "get_daily silent_fetcher aapl_request = Inr (Some [])
   \<and> manager_get_daily_data (manager_init (Some [silent_fetcher]) []) aapl_request
       = Inl (DataFetchError
               [0x6240, 0x6709, 0x6578, 0x64DA, 0x6E90, 0x7372, 0x53D6, 32, 65, 65, 80, 76, 32,
                0x5931, 0x6557, 58, 10])
   \<and> name silent_fetcher = [66, 97, 111, 115, 116, 111, 99, 107, 70, 101, 116, 99, 104, 101, 114]
   \<and> \<not> sublist [66, 97, 111, 115, 116, 111, 99, 107, 70, 101, 116, 99, 104, 101, 114]
         [0x6240, 0x6709, 0x6578, 0x64DA, 0x6E90, 0x7372, 0x53D6, 32, 65, 65, 80, 76, 32,
          0x5931, 0x6557, 58, 10::nat]"
  by (simp add: silent_fetcher_def aapl_request_def manager_init_def manager_get_daily_data_def
      error_summary_literal ascii_def sublist_Cons_right)

text \<open>
  Claim C1, amended. The manager's fetchers are those it was given (or the defaults), in
  ascending order of priority. For every request, when a fetcher of that list returns a
  non-empty series and every fetcher before it raises or returns \<open>None\<close> or an empty
  series, the result is that series with that fetcher's name. When every fetcher raises
  or returns \<open>None\<close> or an empty series, the result is one \<open>DataFetchError\<close>; its message
  is the summary line with the stock code, followed by one line, the name in brackets
  and the exception's message, for each fetcher that raised, in the manager's order. A
  fetcher that returned \<open>None\<close> or an empty series contributes no line.
\<close>

theorem manager_get_daily_data_failover:
  "sorted (map priority (manager_init fetchers defaults))
   \<and> mset (manager_init fetchers defaults)
       = mset (case fetchers of Some fs \<Rightarrow> if fs \<noteq> [] then fs else defaults | None \<Rightarrow> defaults)
   \<and> (\<forall>pre f post df.
         manager_init fetchers defaults = pre @ f # post
         \<and> (\<forall>g\<in>set pre. case get_daily g req of
                             Inl e \<Rightarrow> True | Inr None \<Rightarrow> True | Inr (Some d) \<Rightarrow> d = [])
         \<and> get_daily f req = Inr (Some df) \<and> df \<noteq> []
         \<longrightarrow> manager_get_daily_data (manager_init fetchers defaults) req = Inr (df, name f))
   \<and> ((\<forall>g\<in>set (manager_init fetchers defaults).
          case get_daily g req of Inl e \<Rightarrow> True | Inr None \<Rightarrow> True | Inr (Some d) \<Rightarrow> d = [])
        \<longrightarrow> (\<exists>msg. manager_get_daily_data (manager_init fetchers defaults) req
                      = Inl (DataFetchError msg)
               \<and> msg = [0x6240, 0x6709, 0x6578, 0x64DA, 0x6E90, 0x7372, 0x53D6, 32]
                        @ stock_code req @ [32, 0x5931, 0x6557, 58, 10]
                        @ py_join [10]
                            (concat (map (\<lambda>g. case get_daily g req of
                                 Inl e \<Rightarrow> [[91] @ name g @ [93, 32, 0x5931, 0x6557, 58, 32]
                                            @ exc_str e]
                               | Inr r \<Rightarrow> []) (manager_init fetchers defaults)))
               \<and> (\<forall>g\<in>set (manager_init fetchers defaults). \<forall>m.
                     (get_daily g req = Inl (DataFetchError m)
                      \<or> get_daily g req = Inl (OtherException m))
                     \<longrightarrow> sublist ([91] @ name g @ [93, 32, 0x5931, 0x6557, 58, 32] @ m) msg)))"
proof -
  let ?fs = "manager_init fetchers defaults"
  have yn: "\<And>g. yields_nothing g req
              = (case get_daily g req of Inl e \<Rightarrow> True | Inr None \<Rightarrow> True | Inr (Some d) \<Rightarrow> d = [])"
    by (simp add: yields_nothing_def)
  have a: "\<And>pre f post df. ?fs = pre @ f # post \<Longrightarrow> \<forall>g\<in>set pre. yields_nothing g req \<Longrightarrow>
             get_daily f req = Inr (Some df) \<Longrightarrow> df \<noteq> [] \<Longrightarrow>
             manager_get_daily_data ?fs req = Inr (df, name f)"
    by (simp add: manager_get_daily_data_def daily_loop_skip)
  have b: "\<forall>g\<in>set ?fs. yields_nothing g req \<Longrightarrow>
           manager_get_daily_data ?fs req
             = Inl (DataFetchError (error_summary (stock_code req) (failure_lines ?fs req)))"
    using daily_loop_skip[of ?fs req "[]" "[]"] by (simp add: manager_get_daily_data_def)
  have c: "\<And>g m. g \<in> set ?fs \<Longrightarrow>
             get_daily g req = Inl (DataFetchError m) \<or> get_daily g req = Inl (OtherException m) \<Longrightarrow>
             sublist ([91] @ name g @ [93, 32, 0x5931, 0x6557, 58, 32] @ m)
               (error_summary (stock_code req) (failure_lines ?fs req))"
  proof -
    fix g m
    assume g: "g \<in> set ?fs"
      and r: "get_daily g req = Inl (DataFetchError m) \<or> get_daily g req = Inl (OtherException m)"
    then obtain e where e: "get_daily g req = Inl e" "exc_str e = m" by auto
    have "failure_line (name g) e \<in> set (failure_lines ?fs req)"
      using g e(1) by (rule failure_lines_member)
    then have "sublist (failure_line (name g) e) (py_join [10] (failure_lines ?fs req))"
      by (rule py_join_sublist)
    then have "sublist (failure_line (name g) e)
                 (error_summary (stock_code req) (failure_lines ?fs req))"
      by (rule sublist_in_summary)
    then show "sublist ([91] @ name g @ [93, 32, 0x5931, 0x6557, 58, 32] @ m)
                 (error_summary (stock_code req) (failure_lines ?fs req))"
      by (simp only: failure_line_literal e(2))
  qed
  have d: "(\<forall>g\<in>set ?fs. yields_nothing g req) \<longrightarrow>
           (\<exists>msg. manager_get_daily_data ?fs req = Inl (DataFetchError msg)
               \<and> msg = [0x6240, 0x6709, 0x6578, 0x64DA, 0x6E90, 0x7372, 0x53D6, 32]
                        @ stock_code req @ [32, 0x5931, 0x6557, 58, 10]
                        @ py_join [10]
                            (concat (map (\<lambda>g. case get_daily g req of
                                 Inl e \<Rightarrow> [[91] @ name g @ [93, 32, 0x5931, 0x6557, 58, 32]
                                            @ exc_str e]
                               | Inr r \<Rightarrow> []) ?fs))
               \<and> (\<forall>g\<in>set ?fs. \<forall>m.
                     (get_daily g req = Inl (DataFetchError m)
                      \<or> get_daily g req = Inl (OtherException m))
                     \<longrightarrow> sublist ([91] @ name g @ [93, 32, 0x5931, 0x6557, 58, 32] @ m) msg))"
  proof
    assume all: "\<forall>g\<in>set ?fs. yields_nothing g req"
    let ?msg = "error_summary (stock_code req) (failure_lines ?fs req)"
    have 1: "manager_get_daily_data ?fs req = Inl (DataFetchError ?msg)" using all by (rule b)
    have 2: "?msg = [0x6240, 0x6709, 0x6578, 0x64DA, 0x6E90, 0x7372, 0x53D6, 32]
                        @ stock_code req @ [32, 0x5931, 0x6557, 58, 10]
                        @ py_join [10]
                            (concat (map (\<lambda>g. case get_daily g req of
                                 Inl e \<Rightarrow> [[91] @ name g @ [93, 32, 0x5931, 0x6557, 58, 32]
                                            @ exc_str e]
                               | Inr r \<Rightarrow> []) ?fs))"
      by (simp only: error_summary_literal failure_lines_literal)
    have 3: "\<forall>g\<in>set ?fs. \<forall>m.
                     (get_daily g req = Inl (DataFetchError m)
                      \<or> get_daily g req = Inl (OtherException m))
                     \<longrightarrow> sublist ([91] @ name g @ [93, 32, 0x5931, 0x6557, 58, 32] @ m) ?msg"
      using c by blast
    from 1 2 3 show "\<exists>msg. manager_get_daily_data ?fs req = Inl (DataFetchError msg)
               \<and> msg = [0x6240, 0x6709, 0x6578, 0x64DA, 0x6E90, 0x7372, 0x53D6, 32]
                        @ stock_code req @ [32, 0x5931, 0x6557, 58, 10]
                        @ py_join [10]
                            (concat (map (\<lambda>g. case get_daily g req of
                                 Inl e \<Rightarrow> [[91] @ name g @ [93, 32, 0x5931, 0x6557, 58, 32]
                                            @ exc_str e]
                               | Inr r \<Rightarrow> []) ?fs))
               \<and> (\<forall>g\<in>set ?fs. \<forall>m.
                     (get_daily g req = Inl (DataFetchError m)
                      \<or> get_daily g req = Inl (OtherException m))
                     \<longrightarrow> sublist ([91] @ name g @ [93, 32, 0x5931, 0x6557, 58, 32] @ m) msg)"
      by (intro exI[of _ ?msg] conjI)
  qed
  have a': "\<forall>pre f post df.
         ?fs = pre @ f # post
         \<and> (\<forall>g\<in>set pre. case get_daily g req of
                             Inl e \<Rightarrow> True | Inr None \<Rightarrow> True | Inr (Some d) \<Rightarrow> d = [])
         \<and> get_daily f req = Inr (Some df) \<and> df \<noteq> []
         \<longrightarrow> manager_get_daily_data ?fs req = Inr (df, name f)"
    using a unfolding yn by blast
  show ?thesis
    using manager_init_sorted manager_init_mset a' d[unfolded yn] by (intro conjI)
qed

lemma example_init: "manager_init (Some [good_fetcher, bad_fetcher]) [] = [bad_fetcher, good_fetcher]"
  by (simp add: manager_init_def good_fetcher_def bad_fetcher_def)

lemma example_init_failing:
  "manager_init (Some [silent_fetcher, bad_fetcher]) [] = [bad_fetcher, silent_fetcher]"
  by (simp add: manager_init_def silent_fetcher_def bad_fetcher_def)

lemma good_fetcher_daily:
  "get_daily good_fetcher aapl_request = Inr (Some (calculate_indicators exact_ops series21))
   \<and> calculate_indicators exact_ops series21 \<noteq> []"
proof -
  have "length (calculate_indicators exact_ops series21) = 21"
    by (simp add: calculate_indicators_length series21_length)
  then have "calculate_indicators exact_ops series21 \<noteq> []" by auto
  then show ?thesis by (simp add: good_fetcher_def)
qed

theorem manager_get_daily_data_failover_witness:
  "manager_init (Some [good_fetcher, bad_fetcher]) [] = [bad_fetcher] @ good_fetcher # []
   \<and> get_daily bad_fetcher aapl_request = Inl (DataFetchError [98, 111, 111, 109])
   \<and> get_daily good_fetcher aapl_request = Inr (Some (calculate_indicators exact_ops series21))
   \<and> calculate_indicators exact_ops series21 \<noteq> []
   \<and> manager_get_daily_data (manager_init (Some [good_fetcher, bad_fetcher]) []) aapl_request
       = Inr (calculate_indicators exact_ops series21, name good_fetcher)
   \<and> manager_init (Some [silent_fetcher, bad_fetcher]) [] = [bad_fetcher, silent_fetcher]
   \<and> get_daily silent_fetcher aapl_request = Inr (Some [])
   \<and> manager_get_daily_data (manager_init (Some [silent_fetcher, bad_fetcher]) []) aapl_request
       = Inl (DataFetchError
               ([0x6240, 0x6709, 0x6578, 0x64DA, 0x6E90, 0x7372, 0x53D6, 32, 65, 65, 80, 76, 32,
                 0x5931, 0x6557, 58, 10]
                @ [91, 69, 102, 105, 110, 97, 110, 99, 101, 70, 101, 116, 99, 104, 101, 114, 93,
                   32, 0x5931, 0x6557, 58, 32, 98, 111, 111, 109]))"
proof -
  have b: "get_daily bad_fetcher aapl_request = Inl (DataFetchError [98, 111, 111, 109])"
    by (simp add: bad_fetcher_def ascii_def)
  have s: "get_daily silent_fetcher aapl_request = Inr (Some [])"
    by (simp add: silent_fetcher_def)
  have i: "manager_init (Some [good_fetcher, bad_fetcher]) [] = [bad_fetcher] @ good_fetcher # []"
    by (simp add: example_init)
  have p: "\<forall>g\<in>set [bad_fetcher]. case get_daily g aapl_request of
             Inl e \<Rightarrow> True | Inr None \<Rightarrow> True | Inr (Some d) \<Rightarrow> d = []"
    by (simp add: b)
  from manager_get_daily_data_failover [of "Some [good_fetcher, bad_fetcher]" "[]" aapl_request]
  have 1: "manager_get_daily_data (manager_init (Some [good_fetcher, bad_fetcher]) []) aapl_request
          = Inr (calculate_indicators exact_ops series21, name good_fetcher)"
    using i p good_fetcher_daily by blast
  have nb: "name bad_fetcher
              = [69, 102, 105, 110, 97, 110, 99, 101, 70, 101, 116, 99, 104, 101, 114]"
    by (simp add: bad_fetcher_def ascii_def)
  have c: "stock_code aapl_request = [65, 65, 80, 76]" by (simp add: aapl_request_def ascii_def)
  from manager_get_daily_data_failover [of "Some [silent_fetcher, bad_fetcher]" "[]" aapl_request]
  have 2: "manager_get_daily_data (manager_init (Some [silent_fetcher, bad_fetcher]) [])
             aapl_request
       = Inl (DataFetchError
               ([0x6240, 0x6709, 0x6578, 0x64DA, 0x6E90, 0x7372, 0x53D6, 32, 65, 65, 80, 76, 32,
                 0x5931, 0x6557, 58, 10]
                @ [91, 69, 102, 105, 110, 97, 110, 99, 101, 70, 101, 116, 99, 104, 101, 114, 93,
                   32, 0x5931, 0x6557, 58, 32, 98, 111, 111, 109]))"
    by (simp add: example_init_failing b s nb c)
  show ?thesis using i b s 1 2 good_fetcher_daily example_init_failing by (simp only: simp_thms)
qed

section \<open>Properties of the string methods and of the matcher\<close>

lemma py_strip_last: "py_strip s \<noteq> [] \<Longrightarrow> \<not> py_isspace (last (py_strip s))"
proof -
  assume a: "py_strip s \<noteq> []"
  let ?d = "dropWhile py_isspace (rev (dropWhile py_isspace s))"
  have ne: "?d \<noteq> []" using a by (simp add: py_strip_def)
  then have "\<not> py_isspace (hd ?d)" by (rule hd_dropWhile)
  moreover have "last (py_strip s) = hd ?d" using ne by (simp add: py_strip_def last_rev)
  ultimately show ?thesis by simp
qed

lemma upper_char_newline: "upper_char c = 10 \<longleftrightarrow> c = 10"
  by (auto simp: upper_char_def)

lemma py_upper_strip_no_newline: "py_upper (py_strip s) \<noteq> w @ [10]"
proof
  assume a: "py_upper (py_strip s) = w @ [10]"
  then have ne: "py_strip s \<noteq> []" by (auto simp: py_upper_def)
  have "last (py_upper (py_strip s)) = upper_char (last (py_strip s))"
    using ne by (simp add: py_upper_def last_map)
  then have "upper_char (last (py_strip s)) = 10" using a by simp
  then have "last (py_strip s) = 10" by (simp add: upper_char_newline)
  moreover have "py_isspace 10" by (simp add: py_isspace_def)
  ultimately show False using py_strip_last[OF ne] by simp
qed

lemma rx_run_Cls:
  "set (rx_run (Cls lo hi) s) = {rest. \<exists>c. s = c # rest \<and> lo \<le> c \<and> c \<le> hi}"
  by (cases s) auto

lemma rx_iter_Cls:
  "set (rx_iter (rx_run (Cls lo hi)) k s)
     = {rest. \<exists>L. s = L @ rest \<and> length L = k \<and> (\<forall>c\<in>set L. lo \<le> c \<and> c \<le> hi)}"
proof (induction k)
  case 0
  then show ?case by auto
next
  case (Suc k)
  show ?case
  proof (intro set_eqI iffI)
    fix rest
    assume "rest \<in> set (rx_iter (rx_run (Cls lo hi)) (Suc k) s)"
    then obtain mid where m: "mid \<in> set (rx_iter (rx_run (Cls lo hi)) k s)"
        and r: "rest \<in> set (rx_run (Cls lo hi) mid)"
      by auto
    from m obtain L where L: "s = L @ mid" "length L = k" "\<forall>c\<in>set L. lo \<le> c \<and> c \<le> hi"
      unfolding Suc.IH by blast
    from r obtain c where c: "mid = c # rest" "lo \<le> c" "c \<le> hi"
      unfolding rx_run_Cls by blast
    have "s = (L @ [c]) @ rest \<and> length (L @ [c]) = Suc k
          \<and> (\<forall>x\<in>set (L @ [c]). lo \<le> x \<and> x \<le> hi)"
      using L c by simp
    then show "rest \<in> {rest. \<exists>L. s = L @ rest \<and> length L = Suc k
                          \<and> (\<forall>c\<in>set L. lo \<le> c \<and> c \<le> hi)}"
      by blast
  next
    fix rest
    assume "rest \<in> {rest. \<exists>L. s = L @ rest \<and> length L = Suc k
                         \<and> (\<forall>c\<in>set L. lo \<le> c \<and> c \<le> hi)}"
    then obtain L where L: "s = L @ rest" "length L = Suc k" "\<forall>c\<in>set L. lo \<le> c \<and> c \<le> hi"
      by blast
    then obtain L' c where s: "L = L' @ [c]" by (cases L rule: rev_cases) auto
    have "c # rest \<in> set (rx_iter (rx_run (Cls lo hi)) k s)"
      unfolding Suc.IH using L s by auto
    moreover have "rest \<in> set (rx_run (Cls lo hi) (c # rest))" using L s by simp
    ultimately show "rest \<in> set (rx_iter (rx_run (Cls lo hi)) (Suc k) s)" by auto
  qed
qed

lemma rx_run_Rep_Cls:
  "set (rx_run (Rep (Cls lo hi) m n) s)
     = {rest. \<exists>L. s = L @ rest \<and> m \<le> length L \<and> length L \<le> n
                \<and> (\<forall>c\<in>set L. lo \<le> c \<and> c \<le> hi)}"
proof -
  have "set (rx_run (Rep (Cls lo hi) m n) s)
          = (\<Union>k\<in>set [m..<Suc n]. set (rx_iter (rx_run (Cls lo hi)) k s))"
    by (simp del: upt_Suc)
  moreover have "set [m..<Suc n] = {m..n}" by (simp del: upt_Suc) auto
  ultimately have "set (rx_run (Rep (Cls lo hi) m n) s)
          = (\<Union>k\<in>{m..n}. set (rx_iter (rx_run (Cls lo hi)) k s))"
    by simp
  then show ?thesis unfolding rx_iter_Cls by auto
qed

lemma rx_run_us_pattern:
  "set (rx_run us_pattern s)
     = {rest. \<exists>L S. s = L @ S @ rest \<and> 1 \<le> length L \<and> length L \<le> 5
                \<and> (\<forall>c\<in>set L. 65 \<le> c \<and> c \<le> 90)
                \<and> (S = [] \<or> (\<exists>x. S = [46, x] \<and> 65 \<le> x \<and> x \<le> 90))}"
proof -
  have tail: "\<And>mid. set (rx_run (Opt (Seq (Cls 46 46) (Cls 65 90))) mid)
                = {rest. \<exists>S. mid = S @ rest
                     \<and> (S = [] \<or> (\<exists>x. S = [46, x] \<and> 65 \<le> x \<and> x \<le> 90))}"
  proof -
    fix mid
    have "set (rx_run (Seq (Cls 46 46) (Cls 65 90)) mid)
            = {rest. \<exists>x. mid = [46, x] @ rest \<and> 65 \<le> x \<and> x \<le> 90}"
      using rx_run_Cls by (cases mid) (auto split: list.splits)
    then show "set (rx_run (Opt (Seq (Cls 46 46) (Cls 65 90))) mid)
                = {rest. \<exists>S. mid = S @ rest
                     \<and> (S = [] \<or> (\<exists>x. S = [46, x] \<and> 65 \<le> x \<and> x \<le> 90))}"
      by auto
  qed
  have "set (rx_run us_pattern s)
          = (\<Union>mid\<in>set (rx_run (Rep (Cls 65 90) 1 5) s).
               set (rx_run (Opt (Seq (Cls 46 46) (Cls 65 90))) mid))"
    by (simp add: us_pattern_def)
  also have "\<dots> = {rest. \<exists>L S. s = L @ S @ rest \<and> 1 \<le> length L \<and> length L \<le> 5
                \<and> (\<forall>c\<in>set L. 65 \<le> c \<and> c \<le> 90)
                \<and> (S = [] \<or> (\<exists>x. S = [46, x] \<and> 65 \<le> x \<and> x \<le> 90))}"
    unfolding tail rx_run_Rep_Cls by blast
  finally show ?thesis .
qed

lemma is_us_code_shape:
  "is_us_code code \<longleftrightarrow>
     (\<exists>L S. py_upper (py_strip code) = L @ S \<and> 1 \<le> length L \<and> length L \<le> 5
        \<and> (\<forall>c\<in>set L. 65 \<le> c \<and> c \<le> 90)
        \<and> (S = [] \<or> (\<exists>x. S = [46, x] \<and> 65 \<le> x \<and> x \<le> 90)))"
proof -
  let ?s = "py_upper (py_strip code)"
  have "is_us_code code \<longleftrightarrow> (\<exists>rest\<in>set (rx_run us_pattern ?s). rest = [] \<or> rest = [10])"
    by (simp add: is_us_code_def re_match_anchored_def list_ex_iff)
  also have "\<dots> \<longleftrightarrow> [] \<in> set (rx_run us_pattern ?s)"
  proof
    assume "\<exists>rest\<in>set (rx_run us_pattern ?s). rest = [] \<or> rest = [10]"
    moreover have "[10] \<notin> set (rx_run us_pattern ?s)"
    proof
      assume "[10] \<in> set (rx_run us_pattern ?s)"
      then obtain L S where "?s = (L @ S) @ [10]" unfolding rx_run_us_pattern by auto
      then show False using py_upper_strip_no_newline by blast
    qed
    ultimately show "[] \<in> set (rx_run us_pattern ?s)" by auto
  qed auto
  also have "\<dots> \<longleftrightarrow> (\<exists>L S. ?s = L @ S \<and> 1 \<le> length L \<and> length L \<le> 5
        \<and> (\<forall>c\<in>set L. 65 \<le> c \<and> c \<le> 90)
        \<and> (S = [] \<or> (\<exists>x. S = [46, x] \<and> 65 \<le> x \<and> x \<le> 90)))"
    unfolding rx_run_us_pattern by simp
  finally show ?thesis .
qed

text \<open>
  Claim C8. For every string (of Unicode scalar values, the strings \<open>str.encode\<close> accepts)
  and every \<open>max_bytes \<ge> 0\<close>, \<open>_truncate_to_bytes\<close> returns normally; its result is a
  prefix of the input, counted in code points, so no character is cut; the result's
  UTF-8 encoding is a prefix of the input's encoding, decodes back to the result, and has at
  most \<open>max_bytes\<close> bytes; and when the input's encoding already fits, the input is
  returned unchanged.
\<close>

theorem truncate_to_bytes_spec:
  assumes "\<forall>c\<in>set str. is_scalar c" and "0 \<le> max_bytes"
  shows "\<exists>r. truncate_to_bytes str max_bytes = Inr r \<and> prefix r str
            \<and> prefix (utf8_encode r) (utf8_encode str)
            \<and> utf8_decode (utf8_encode r) = Some r
            \<and> int (length (utf8_encode r)) \<le> max_bytes
            \<and> (int (length (utf8_encode str)) \<le> max_bytes \<longrightarrow> r = str)"
proof (cases "int (length (utf8_encode str)) \<le> max_bytes")
  case True
  then have "truncate_to_bytes str max_bytes = Inr str"
    using assms(1) by (simp add: truncate_to_bytes_def py_encode_utf8_def)
  then show ?thesis using True assms(1) by (simp add: utf8_decode_encode)
next
  case False
  let ?t = "py_slice_to (utf8_encode str) max_bytes"
  let ?r = "decode_walk_back ?t"
  have t: "?t = take (nat max_bytes) (utf8_encode str)"
    using assms(2) by (simp add: py_slice_to_def)
  have res: "truncate_to_bytes str max_bytes = Inr ?r"
    using False assms(1) by (simp add: truncate_to_bytes_def py_encode_utf8_def)
  have "prefix ?t (utf8_encode str)" unfolding t by (rule take_is_prefix)
  from decode_walk_back_prefix[OF assms(1) this]
  have p: "prefix ?r str" and l: "length (utf8_encode ?r) \<le> length ?t" by simp_all
  have sr: "\<forall>c\<in>set ?r. is_scalar c" using p assms(1) by (auto dest: set_mono_prefix)
  have pe: "prefix (utf8_encode ?r) (utf8_encode str)"
    using p by (rule utf8_encode_prefix)
  have "length ?t \<le> nat max_bytes" unfolding t by simp
  with l have "int (length (utf8_encode ?r)) \<le> max_bytes" using assms(2) by linarith
  with res p pe sr False show ?thesis by (simp add: utf8_decode_encode)
qed

theorem truncate_to_bytes_spec_witness:
  "is_scalar 0x672C \<and> is_scalar 0x6BB5 \<and> (0::int) \<le> 4
   \<and> truncate_to_bytes [0x672C, 0x6BB5] 4 = Inr [0x672C]
   \<and> (\<exists>r. truncate_to_bytes [0x672C, 0x6BB5] 4 = Inr r \<and> prefix r [0x672C, 0x6BB5]
            \<and> prefix (utf8_encode r) (utf8_encode [0x672C, 0x6BB5])
            \<and> utf8_decode (utf8_encode r) = Some r
            \<and> int (length (utf8_encode r)) \<le> 4)"
proof -
  have h1: "\<forall>c\<in>set [0x672C, 0x6BB5::nat]. is_scalar c" by (simp add: is_scalar_def)
  have h2: "(0::int) \<le> 4" by simp
  have v: "truncate_to_bytes [0x672C, 0x6BB5] 4 = Inr [0x672C]"
    by (simp add: truncate_to_bytes_def py_encode_utf8_def is_scalar_def utf8_encode_def
        utf8_enc1_def py_slice_to_def decode_walk_back.simps utf8_decode.simps utf8_first_def
        utf8_seq_len_def utf8_seq_value_def is_cont_def second_ok3_def)
  show ?thesis using h1 h2 v truncate_to_bytes_spec [OF h1 h2] by auto
qed

section \<open>Claim C10: realtime quotes switched off\<close>

text \<open>
  Claim C10. When \<open>enable_realtime_quote\<close> is false, \<open>get_realtime_quote\<close> returns
  \<open>None\<close> for every stock code and every list of fetchers, and does nothing to the
  outside: no fetcher method is called, so no cache and no circuit breaker behind one is
  reached.
\<close>

theorem realtime_quote_disabled:
  "\<not> enable_realtime_quote cfg \<Longrightarrow> manager_get_realtime_quote cfg fs code = (None, [])"
  by (simp add: manager_get_realtime_quote_def)

theorem realtime_quote_disabled_witness:
  "\<not> enable_realtime_quote (config_with False (ascii ''tencent,akshare_sina,efinance,akshare_em''))
   \<and> manager_get_realtime_quote
        (config_with False (ascii ''tencent,akshare_sina,efinance,akshare_em''))
        [quoting_fetcher (ascii ''AkshareFetcher''), quoting_fetcher (ascii ''YfinanceFetcher'')]
        (ascii ''600519'') = (None, [])"
proof -
  have h: "\<not> enable_realtime_quote
              (config_with False (ascii ''tencent,akshare_sina,efinance,akshare_em''))"
    by (simp add: config_with_def)
  show ?thesis using h realtime_quote_disabled [OF h] by simp
qed

section \<open>Claim C5: US tickers\<close>

text \<open>
  Claim C5, as stated, at concrete inputs: \<open>BRK.AB\<close> matches the pattern of the
  specification and is not classified as a US code; \<open>aapl\<close> does not match it and is
  classified as a US code.
\<close>

theorem us_code_pattern_counterexample:
  "spec_is_us (ascii ''BRK.AB'') \<and> \<not> is_us_code (ascii ''BRK.AB'')
   \<and> \<not> spec_is_us (ascii ''aapl'') \<and> is_us_code (ascii ''aapl'')"
  by (simp add: is_us_code_def us_pattern_def re_match_anchored_def ascii_def upt_rec
      py_strip_def py_isspace_def py_upper_def upper_char_def spec_is_us_def spec_us_pattern_def)

lemma us_quote_events:
  "enable_realtime_quote cfg \<Longrightarrow> is_us_code code \<Longrightarrow>
   (\<forall>ev\<in>set (snd (manager_get_realtime_quote cfg fs code)).
       ev = QuoteCall (ascii ''YfinanceFetcher'') code None)
   \<and> length (snd (manager_get_realtime_quote cfg fs code)) \<le> 1"
  by (auto simp: manager_get_realtime_quote_def us_quote_def call_quote_def
           split: option.splits sum.splits prod.splits)

lemma us_quote_result:
  "enable_realtime_quote cfg \<Longrightarrow> is_us_code code \<Longrightarrow>
   fst (manager_get_realtime_quote cfg fs code)
     = (case find (\<lambda>f. name f = ascii ''YfinanceFetcher'') fs of
          None \<Rightarrow> None
        | Some f \<Rightarrow>
            (case get_quote f of
               None \<Rightarrow> None
             | Some m \<Rightarrow> (case m code None of Inl e \<Rightarrow> None | Inr q \<Rightarrow> q)))"
  by (auto simp: manager_get_realtime_quote_def us_quote_def call_quote_def
           split: option.splits sum.splits prod.splits)

text \<open>
  Claim C5, amended. An ASCII ticker is classified as a US code exactly when, stripped
  of surrounding whitespace and upper-cased, it is one to five capital letters,
  optionally followed by a dot and exactly one capital letter. With realtime quotes
  enabled, for every code so classified \<open>get_realtime_quote\<close> calls at most one method,
  the quote method of the first fetcher named \<open>YfinanceFetcher\<close>, and returns what it
  returns, \<open>None\<close> when that fetcher is missing, has no quote method, raises or returns
  \<open>None\<close>.
\<close>

theorem us_code_routing:
  "(is_ascii code \<longrightarrow>
      (is_us_code code \<longleftrightarrow>
         (\<exists>L S. py_upper (py_strip code) = L @ S \<and> 1 \<le> length L \<and> length L \<le> 5
            \<and> (\<forall>c\<in>set L. 65 \<le> c \<and> c \<le> 90)
            \<and> (S = [] \<or> (\<exists>x. S = [46, x] \<and> 65 \<le> x \<and> x \<le> 90)))))
   \<and> (enable_realtime_quote cfg \<and> is_us_code code \<longrightarrow>
        (\<forall>ev\<in>set (snd (manager_get_realtime_quote cfg fs code)).
            ev = QuoteCall (ascii ''YfinanceFetcher'') code None)
        \<and> length (snd (manager_get_realtime_quote cfg fs code)) \<le> 1
        \<and> fst (manager_get_realtime_quote cfg fs code)
            = (case find (\<lambda>f. name f = ascii ''YfinanceFetcher'') fs of
                 None \<Rightarrow> None
               | Some f \<Rightarrow>
                   (case get_quote f of
                      None \<Rightarrow> None
                    | Some m \<Rightarrow> (case m code None of Inl e \<Rightarrow> None | Inr q \<Rightarrow> q))))"
proof (intro conjI impI)
  show "is_us_code code \<longleftrightarrow>
         (\<exists>L S. py_upper (py_strip code) = L @ S \<and> 1 \<le> length L \<and> length L \<le> 5
            \<and> (\<forall>c\<in>set L. 65 \<le> c \<and> c \<le> 90)
            \<and> (S = [] \<or> (\<exists>x. S = [46, x] \<and> 65 \<le> x \<and> x \<le> 90)))"
    by (rule is_us_code_shape)
next
  assume "enable_realtime_quote cfg \<and> is_us_code code"
  then show "\<forall>ev\<in>set (snd (manager_get_realtime_quote cfg fs code)).
            ev = QuoteCall (ascii ''YfinanceFetcher'') code None"
    using us_quote_events[of cfg code fs] by simp
next
  assume "enable_realtime_quote cfg \<and> is_us_code code"
  then show "length (snd (manager_get_realtime_quote cfg fs code)) \<le> 1"
    using us_quote_events[of cfg code fs] by simp
next
  assume "enable_realtime_quote cfg \<and> is_us_code code"
  then show "fst (manager_get_realtime_quote cfg fs code)
            = (case find (\<lambda>f. name f = ascii ''YfinanceFetcher'') fs of
                 None \<Rightarrow> None
               | Some f \<Rightarrow>
                   (case get_quote f of
                      None \<Rightarrow> None
                    | Some m \<Rightarrow> (case m code None of Inl e \<Rightarrow> None | Inr q \<Rightarrow> q)))"
    using us_quote_result[of cfg code fs] by simp
qed

theorem us_code_routing_witness:
  "is_ascii (ascii ''AAPL'') \<and> is_us_code (ascii ''AAPL'')
   \<and> enable_realtime_quote (config_with True (ascii ''tencent,efinance''))
   \<and> manager_get_realtime_quote (config_with True (ascii ''tencent,efinance''))
        [quoting_fetcher (ascii ''AkshareFetcher''), quoting_fetcher (ascii ''YfinanceFetcher'')]
        (ascii ''AAPL'')
      = (Some \<lparr> q_code = ascii ''AAPL'', q_name = ascii ''AAPL'',
                 q_source = ascii ''YfinanceFetcher'', q_price = Some 100 \<rparr>,
         [QuoteCall (ascii ''YfinanceFetcher'') (ascii ''AAPL'') None])
   \<and> fst (manager_get_realtime_quote (config_with True (ascii ''tencent,efinance''))
        [quoting_fetcher (ascii ''AkshareFetcher''), raising_fetcher (ascii ''YfinanceFetcher'')]
        (ascii ''AAPL'')) = None"
proof -
  have a: "is_ascii (ascii ''AAPL'')" by (simp add: is_ascii_def ascii_def)
  have e: "enable_realtime_quote (config_with True (ascii ''tencent,efinance''))"
    by (simp add: config_with_def)
  have s: "py_upper (py_strip (ascii ''AAPL'')) = [65, 65, 80, 76] @ []"
    by (simp add: ascii_def py_strip_def py_isspace_def py_upper_def upper_char_def)
  have "\<exists>L S. py_upper (py_strip (ascii ''AAPL'')) = L @ S \<and> 1 \<le> length L \<and> length L \<le> 5
            \<and> (\<forall>c\<in>set L. 65 \<le> c \<and> c \<le> 90)
            \<and> (S = [] \<or> (\<exists>x. S = [46, x] \<and> 65 \<le> x \<and> x \<le> 90))"
    by (rule exI[of _ "[65, 65, 80, 76]"], rule exI[of _ "[]"]) (simp add: s)
  then have u: "is_us_code (ascii ''AAPL'')"
    using a us_code_routing [of "ascii ''AAPL''"] by (simp only: simp_thms)
  have n: "ascii ''AkshareFetcher'' \<noteq> ascii ''YfinanceFetcher''" by (simp add: ascii_def)
  have f1: "fst (manager_get_realtime_quote (config_with True (ascii ''tencent,efinance''))
        [quoting_fetcher (ascii ''AkshareFetcher''), raising_fetcher (ascii ''YfinanceFetcher'')]
        (ascii ''AAPL'')) = None"
    using e u n
      us_code_routing [of "ascii ''AAPL''" "config_with True (ascii ''tencent,efinance'')"
        "[quoting_fetcher (ascii ''AkshareFetcher''), raising_fetcher (ascii ''YfinanceFetcher'')]"]
    by (simp add: quoting_fetcher_def raising_fetcher_def)
  have f2: "manager_get_realtime_quote (config_with True (ascii ''tencent,efinance''))
        [quoting_fetcher (ascii ''AkshareFetcher''), quoting_fetcher (ascii ''YfinanceFetcher'')]
        (ascii ''AAPL'')
      = (Some \<lparr> q_code = ascii ''AAPL'', q_name = ascii ''AAPL'',
                 q_source = ascii ''YfinanceFetcher'', q_price = Some 100 \<rparr>,
         [QuoteCall (ascii ''YfinanceFetcher'') (ascii ''AAPL'') None])"
    using e u n
    by (simp add: manager_get_realtime_quote_def us_quote_def call_quote_def quoting_fetcher_def)
  show ?thesis using a e u f1 f2 by simp
qed

section \<open>Claim C7: prefetching realtime quotes\<close>

lemma first_index_take:
  "(\<exists>i. first_index P xs = Some i \<and> i < n) \<longleftrightarrow> list_ex P (take n xs)"
proof (induction xs arbitrary: n)
  case Nil
  then show ?case by simp
next
  case (Cons x xs)
  show ?case
  proof (cases n)
    case 0
    then show ?thesis by simp
  next
    case (Suc m)
    show ?thesis
    proof (cases "P x")
      case True
      then show ?thesis using Suc by simp
    next
      case False
      have "(\<exists>i. first_index P (x # xs) = Some i \<and> i < n)
              \<longleftrightarrow> (\<exists>j. first_index P xs = Some j \<and> j < m)"
        using False Suc by auto
      then show ?thesis using False Suc Cons.IH[of m] by simp
    qed
  qed
qed

lemma split_tencent_efinance:
  "map py_strip (py_split (ascii '','') (py_lower (ascii ''tencent,efinance'')))
     = [ascii ''tencent'', ascii ''efinance'']"
  by (simp add: py_split_def py_split_from.simps ascii_def py_lower_def lower_char_def
      py_strip_def py_isspace_def)

lemma split_efinance:
  "map py_strip (py_split (ascii '','') (py_lower (ascii ''efinance''))) = [ascii ''efinance'']"
  by (simp add: py_split_def py_split_from.simps ascii_def py_lower_def lower_char_def
      py_strip_def py_isspace_def)

lemma split_default:
  "map py_strip (py_split (ascii '','')
       (py_lower (ascii ''tencent,akshare_sina,efinance,akshare_em'')))
     = [ascii ''tencent'', ascii ''akshare_sina'', ascii ''efinance'', ascii ''akshare_em'']"
  by (simp add: py_split_def py_split_from.simps ascii_def py_lower_def lower_char_def
      py_strip_def py_isspace_def)

lemma quote_600519_tencent:
  "manager_get_realtime_quote (config_with True (ascii ''tencent,efinance''))
      [quoting_fetcher (ascii ''AkshareFetcher'')] (ascii ''600519'')
     = (Some \<lparr> q_code = ascii ''600519'', q_name = ascii ''600519'',
                q_source = ascii ''AkshareFetcher'', q_price = Some 100 \<rparr>,
        [QuoteCall (ascii ''AkshareFetcher'') (ascii ''600519'') (Some (ascii ''tencent''))])"
proof -
  have u: "\<not> is_us_code (ascii ''600519'')"
    by (simp add: is_us_code_def us_pattern_def re_match_anchored_def ascii_def upt_rec
        py_strip_def py_isspace_def py_upper_def upper_char_def)
  have p: "py_split (ascii '','') (ascii ''tencent,efinance'')
             = [ascii ''tencent'', ascii ''efinance'']"
    by (simp add: py_split_def py_split_from.simps ascii_def)
  have l: "py_lower (py_strip (ascii ''tencent'')) = ascii ''tencent''"
    by (simp add: ascii_def py_lower_def lower_char_def py_strip_def py_isspace_def)
  have s: "source_quote [quoting_fetcher (ascii ''AkshareFetcher'')] (ascii ''600519'')
             (ascii ''tencent'')
           = (Inr (Some \<lparr> q_code = ascii ''600519'', q_name = ascii ''600519'',
                q_source = ascii ''AkshareFetcher'', q_price = Some 100 \<rparr>),
              [QuoteCall (ascii ''AkshareFetcher'') (ascii ''600519'') (Some (ascii ''tencent''))])"
    by (simp add: source_quote_def call_quote_def quoting_fetcher_def ascii_def)
  show ?thesis
    by (simp add: manager_get_realtime_quote_def config_with_def u p l s has_basic_data_def)
qed

lemma quote_600519_no_fetchers:
  "manager_get_realtime_quote (config_with True (ascii ''efinance'')) [] (ascii ''600519'')
     = (None, [])"
proof -
  have u: "\<not> is_us_code (ascii ''600519'')"
    by (simp add: is_us_code_def us_pattern_def re_match_anchored_def ascii_def upt_rec
        py_strip_def py_isspace_def py_upper_def upper_char_def)
  have p: "py_split (ascii '','') (ascii ''efinance'') = [ascii ''efinance'']"
    by (simp add: py_split_def py_split_from.simps ascii_def)
  show ?thesis
    by (simp add: manager_get_realtime_quote_def config_with_def u p source_quote_def
        call_quote_def)
qed

lemma five_codes_facts: "length five_codes = 5 \<and> hd five_codes = ascii ''600519''"
  by (simp add: five_codes_def)

lemma config_with_sel:
  "enable_realtime_quote (config_with b p) = b \<and> realtime_source_priority (config_with b p) = p"
  by (simp add: config_with_def)

lemma bulk_index_tencent_efinance:
  "first_bulk_source_index (config_with True (ascii ''tencent,efinance'')) = Some 1"
proof -
  have "first_bulk_source_index (config_with True (ascii ''tencent,efinance''))
          = first_index (\<lambda>source. source \<in> set bulk_sources)
              [ascii ''tencent'', ascii ''efinance'']"
    by (simp only: first_bulk_source_index_def config_with_sel split_tencent_efinance)
  then show ?thesis by (simp add: bulk_sources_def ascii_def)
qed

lemma bulk_index_efinance:
  "first_bulk_source_index (config_with True (ascii ''efinance'')) = Some 0"
proof -
  have "first_bulk_source_index (config_with True (ascii ''efinance''))
          = first_index (\<lambda>source. source \<in> set bulk_sources) [ascii ''efinance'']"
    by (simp only: first_bulk_source_index_def config_with_sel split_efinance)
  then show ?thesis by (simp add: bulk_sources_def)
qed

text \<open>
  Claim C7, as stated, at concrete inputs. With the priority \<open>tencent,efinance\<close>, whose
  first source is not a bulk source, and five codes, a quote is requested and 5 is
  returned. With the priority \<open>efinance\<close>, five codes and no fetcher able to answer, a
  quote is requested and 0 is returned, not the number of codes.
\<close>

theorem prefetch_counterexample:
  "prefetch_realtime_quotes (config_with True (ascii ''tencent,efinance''))
      [quoting_fetcher (ascii ''AkshareFetcher'')] five_codes
     = (5, [ascii ''600519''],
        [QuoteCall (ascii ''AkshareFetcher'') (ascii ''600519'') (Some (ascii ''tencent''))])
   \<and> map py_strip (py_split (ascii '','') (py_lower (ascii ''tencent,efinance'')))
       = [ascii ''tencent'', ascii ''efinance'']
   \<and> prefetch_realtime_quotes (config_with True (ascii ''efinance'')) [] five_codes
       = (0, [ascii ''600519''], [])
   \<and> map py_strip (py_split (ascii '','') (py_lower (ascii ''efinance''))) = [ascii ''efinance'']
   \<and> length five_codes = 5"
proof -
  have e: "\<And>p. enable_realtime_quote (config_with True p)" by (simp add: config_with_def)
  have 1: "prefetch_realtime_quotes (config_with True (ascii ''tencent,efinance''))
      [quoting_fetcher (ascii ''AkshareFetcher'')] five_codes
     = (5, [ascii ''600519''],
        [QuoteCall (ascii ''AkshareFetcher'') (ascii ''600519'') (Some (ascii ''tencent''))])"
    by (simp add: prefetch_realtime_quotes_def e bulk_index_tencent_efinance five_codes_facts
        quote_600519_tencent)
  have 2: "prefetch_realtime_quotes (config_with True (ascii ''efinance'')) [] five_codes
       = (0, [ascii ''600519''], [])"
    by (simp add: prefetch_realtime_quotes_def e bulk_index_efinance five_codes_facts
        quote_600519_no_fetchers)
  from 1 2 split_tencent_efinance split_efinance five_codes_facts show ?thesis
    by (simp only: simp_thms)
qed

text \<open>
  Claim C7, amended (for ASCII source priorities and codes).
  \<open>prefetch_realtime_quotes\<close> returns 0 and requests no quote unless
  realtime quotes are enabled, one of the first two entries of the (lower-cased, split at
  commas, stripped) source priority is a bulk source (\<open>efinance\<close>, \<open>akshare_em\<close> or
  \<open>tushare\<close>), and there are at least five codes. When all three hold it calls
  \<open>get_realtime_quote\<close> exactly once, for the first code, and returns the number of codes
  when that call yields a quote and 0 when it yields \<open>None\<close>.
\<close>

theorem prefetch_realtime_quotes_spec:
  "is_ascii (realtime_source_priority cfg) \<and> list_all is_ascii codes \<longrightarrow>
   prefetch_realtime_quotes cfg fs codes =
     (if enable_realtime_quote cfg
         \<and> list_ex (\<lambda>source. source = ascii ''efinance'' \<or> source = ascii ''akshare_em''
                              \<or> source = ascii ''tushare'')
             (take 2 (map py_strip
                (py_split (ascii '','') (py_lower (realtime_source_priority cfg)))))
         \<and> 5 \<le> length codes
      then (if fst (manager_get_realtime_quote cfg fs (hd codes)) = None then 0
            else length codes,
            [hd codes], snd (manager_get_realtime_quote cfg fs (hd codes)))
      else (0, [], []))"
proof -
  let ?pl = "map py_strip (py_split (ascii '','') (py_lower (realtime_source_priority cfg)))"
  let ?P = "\<lambda>source. source \<in> set bulk_sources"
  have P: "?P = (\<lambda>source. source = ascii ''efinance'' \<or> source = ascii ''akshare_em''
                              \<or> source = ascii ''tushare'')"
    by (auto simp: bulk_sources_def)
  have ix: "(\<exists>i. first_index ?P ?pl = Some i \<and> i < 2) \<longleftrightarrow> list_ex ?P (take 2 ?pl)"
    by (rule first_index_take)
  have main: "prefetch_realtime_quotes cfg fs codes =
     (if enable_realtime_quote cfg \<and> list_ex ?P (take 2 ?pl) \<and> 5 \<le> length codes
      then (if fst (manager_get_realtime_quote cfg fs (hd codes)) = None then 0
            else length codes,
            [hd codes], snd (manager_get_realtime_quote cfg fs (hd codes)))
      else (0, [], []))"
  proof (cases "first_index ?P ?pl")
    case None
    then have "\<not> list_ex ?P (take 2 ?pl)" using ix by simp
    then show ?thesis
      using None by (simp add: prefetch_realtime_quotes_def first_bulk_source_index_def)
  next
    case (Some i)
    then have "list_ex ?P (take 2 ?pl) \<longleftrightarrow> i < 2" using ix by simp
    then show ?thesis
      using Some
      by (cases "manager_get_realtime_quote cfg fs (hd codes)")
         (auto simp: prefetch_realtime_quotes_def first_bulk_source_index_def
               split: option.splits)
  qed
  show ?thesis using main unfolding P by simp
qed

theorem prefetch_realtime_quotes_spec_witness:
  "is_ascii (ascii ''tencent,efinance'')
   \<and> is_ascii (ascii ''tencent,akshare_sina,efinance,akshare_em'')
   \<and> list_all is_ascii five_codes
   \<and> prefetch_realtime_quotes (config_with True (ascii ''tencent,efinance''))
      [quoting_fetcher (ascii ''AkshareFetcher'')] five_codes
     = (5, [ascii ''600519''],
        [QuoteCall (ascii ''AkshareFetcher'') (ascii ''600519'') (Some (ascii ''tencent''))])
   \<and> map py_strip (py_split (ascii '','')
         (py_lower (ascii ''tencent,akshare_sina,efinance,akshare_em'')))
       = [ascii ''tencent'', ascii ''akshare_sina'', ascii ''efinance'', ascii ''akshare_em'']
   \<and> prefetch_realtime_quotes
        (config_with True (ascii ''tencent,akshare_sina,efinance,akshare_em''))
        [quoting_fetcher (ascii ''AkshareFetcher'')] five_codes = (0, [], [])"
proof -
  let ?P = "\<lambda>source. source = ascii ''efinance'' \<or> source = ascii ''akshare_em''
                              \<or> source = ascii ''tushare''"
  have c1: "list_ex ?P (take 2 (map py_strip (py_split (ascii '','')
              (py_lower (realtime_source_priority
                 (config_with True (ascii ''tencent,efinance''))))))) = True"
    by (simp only: config_with_sel split_tencent_efinance) simp
  have c2: "list_ex ?P (take 2 (map py_strip (py_split (ascii '','')
              (py_lower (realtime_source_priority
                 (config_with True (ascii ''tencent,akshare_sina,efinance,akshare_em''))))))) = False"
    by (simp only: config_with_sel split_default) (simp add: ascii_def)
  have a1: "is_ascii (ascii ''tencent,efinance'')" by (simp add: is_ascii_def ascii_def)
  have a2: "is_ascii (ascii ''tencent,akshare_sina,efinance,akshare_em'')"
    by (simp add: is_ascii_def ascii_def)
  have a3: "list_all is_ascii five_codes" by (simp add: five_codes_def is_ascii_def ascii_def)
  have 1: "prefetch_realtime_quotes (config_with True (ascii ''tencent,efinance''))
      [quoting_fetcher (ascii ''AkshareFetcher'')] five_codes
     = (5, [ascii ''600519''],
        [QuoteCall (ascii ''AkshareFetcher'') (ascii ''600519'') (Some (ascii ''tencent''))])"
    using prefetch_realtime_quotes_spec [of "config_with True (ascii ''tencent,efinance'')"
        five_codes "[quoting_fetcher (ascii ''AkshareFetcher'')]"] a1 a3
    unfolding c1 by (simp add: config_with_sel five_codes_facts quote_600519_tencent)
  have 2: "prefetch_realtime_quotes
        (config_with True (ascii ''tencent,akshare_sina,efinance,akshare_em''))
        [quoting_fetcher (ascii ''AkshareFetcher'')] five_codes = (0, [], [])"
    using prefetch_realtime_quotes_spec
        [of "config_with True (ascii ''tencent,akshare_sina,efinance,akshare_em'')"
        five_codes "[quoting_fetcher (ascii ''AkshareFetcher'')]"] a2 a3
    unfolding c2 by (simp add: config_with_sel)
  from a1 a2 a3 1 2 split_default show ?thesis by (simp only: simp_thms)
qed

end
